theory Spec2Isabelle
  imports Main
begin

section \<open>Python values, exceptions and strings\<close>

text \<open>
  The validators of \<^verbatim>\<open>utils/validators.py\<close> read field-keyed dictionaries whose values
  are untyped. The values that occur (in \<^verbatim>\<open>to_dict\<close> and in the repository's tests) are
  \<^verbatim>\<open>None\<close>, booleans, integers, strings and lists of integers. A Python string is a list
  of code points; the model covers the code points below 256, one \<^typ>\<open>char\<close> each.
\<close>

datatype pyval = PNone | PBool bool | PInt int | PStr string | PList "int list"

datatype pyexn = KeyError | AttributeError | TypeError | ZeroDivisionError | IndexError

type_synonym pydict = "string \<Rightarrow> pyval option"

text \<open>Truth value of an object, as \<^verbatim>\<open>not x\<close> and \<^verbatim>\<open>a and b\<close> test it.\<close>

fun truthy :: "pyval \<Rightarrow> bool" where
  "truthy PNone = False"
| "truthy (PBool b) = b"
| "truthy (PInt i) = (i \<noteq> 0)"
| "truthy (PStr s) = (s \<noteq> [])"
| "truthy (PList l) = (l \<noteq> [])"

definition code_point :: "char \<Rightarrow> nat" where
  "code_point c = of_char c"

definition is_digit :: "char \<Rightarrow> bool" where
  "is_digit c = (48 \<le> code_point c \<and> code_point c \<le> 57)"

definition is_alpha :: "char \<Rightarrow> bool" where
  "is_alpha c = ((65 \<le> code_point c \<and> code_point c \<le> 90) \<or> (97 \<le> code_point c \<and> code_point c \<le> 122))"

text \<open>\<^verbatim>\<open>str.isspace\<close> on the code points below 256.\<close>

definition is_space :: "char \<Rightarrow> bool" where
  "is_space c = (code_point c \<in> {9, 10, 11, 12, 13, 28, 29, 30, 31, 32, 133, 160})"

text \<open>\<^verbatim>\<open>s.strip()\<close>.\<close>

definition strip :: "string \<Rightarrow> string" where
  "strip s = rev (dropWhile is_space (rev (dropWhile is_space s)))"

text \<open>
  \<^verbatim>\<open>int(s)\<close> on a string: surrounding whitespace, an optional sign, then decimal digits
  in which single underscores may separate digits. \<open>None\<close> is \<^verbatim>\<open>ValueError\<close>.
  The whitespace that \<^verbatim>\<open>int\<close> skips is not that of \<^verbatim>\<open>str.strip\<close>: of the code points
  below 256 it skips tab, line feed, vertical tab, form feed, carriage return, space,
  0x85 and 0xA0, and it rejects the separators 0x1C to 0x1F. CPython refuses a string of
  more than 4300 digits (the default of \<^verbatim>\<open>sys.get_int_max_str_digits()\<close>; leading zeros
  count, underscores do not).
\<close>

definition int_space :: "char \<Rightarrow> bool" where
  "int_space c = (code_point c \<in> {9, 10, 11, 12, 13, 32, 133, 160})"

definition max_str_digits :: nat where
  "max_str_digits = 4300"

fun digits_ok :: "string \<Rightarrow> bool" where
  "digits_ok [] = False"
| "digits_ok [c] = is_digit c"
| "digits_ok (c # d # cs) =
     (if is_digit c then (if d = CHR ''_'' then digits_ok cs else digits_ok (d # cs)) else False)"

definition digits_value :: "string \<Rightarrow> int" where
  "digits_value s = foldl (\<lambda>a c. 10 * a + int (code_point c - 48)) 0 (filter is_digit s)"

definition int_of_str :: "string \<Rightarrow> int option" where
  "int_of_str s =
     (let t = rev (dropWhile int_space (rev (dropWhile int_space s)));
          neg = (t \<noteq> [] \<and> hd t = CHR ''-'');
          body = (if t \<noteq> [] \<and> (hd t = CHR ''-'' \<or> hd t = CHR ''+'') then tl t else t)
      in if digits_ok body \<and> length (filter is_digit body) \<le> max_str_digits
         then Some (if neg then - digits_value body else digits_value body)
         else None)"

text \<open>
  \<^verbatim>\<open>int(x)\<close> inside \<^verbatim>\<open>try ... except (ValueError, TypeError)\<close>: \<open>None\<close> stands for
  either exception, which the callers handle alike.
\<close>

fun py_int :: "pyval \<Rightarrow> int option" where
  "py_int PNone = None"
| "py_int (PBool b) = Some (if b then 1 else 0)"
| "py_int (PInt i) = Some i"
| "py_int (PStr s) = int_of_str s"
| "py_int (PList l) = None"

text \<open>\<^verbatim>\<open>d[k]\<close> raises \<^verbatim>\<open>KeyError\<close> on a missing key.\<close>

definition getitem :: "pydict \<Rightarrow> string \<Rightarrow> pyexn + pyval" where
  "getitem d k = (case d k of None \<Rightarrow> Inl KeyError | Some v \<Rightarrow> Inr v)"

text \<open>\<^verbatim>\<open>not x.strip()\<close>: only strings have \<^verbatim>\<open>strip\<close>.\<close>

fun strip_is_empty :: "pyval \<Rightarrow> pyexn + bool" where
  "strip_is_empty (PStr s) = Inr (strip s = [])"
| "strip_is_empty v = Inl AttributeError"

section \<open>Configuration (utils/config.py)\<close>

text \<open>
  The engine reads its policy from the module-level \<^verbatim>\<open>config\<close> object; the model passes
  it as a parameter. \<^verbatim>\<open>strict_batch_size\<close> is never read by the code and is left out.
\<close>

record config =
  BATCH_SIZE :: int
  allow_mentor_overload :: bool
  sort_by_roll_number :: bool
  wrap_around_mentors :: bool
  remainder_threshold :: int
  min_roll_number :: int
  max_roll_number :: int
  valid_years :: "int list"
  required_student_fields :: "string list"
  required_mentor_fields :: "string list"

definition Config :: config where
  "Config = \<lparr> BATCH_SIZE = 30, allow_mentor_overload = True, sort_by_roll_number = True,
     wrap_around_mentors = False, remainder_threshold = 12,
     min_roll_number = 1, max_roll_number = 9999, valid_years = [1, 2, 3, 4],
     required_student_fields = [''roll_no'', ''name'', ''branch'', ''year''],
     required_mentor_fields = [''faculty_id'', ''name'', ''department''] \<rparr>"

section \<open>Entity model (models/)\<close>

text \<open>
  The fields of \<^verbatim>\<open>Mentor\<close> that share a name with a field of \<^verbatim>\<open>Student\<close> carry the
  prefix \<open>mentor_\<close>. Timestamps (\<^verbatim>\<open>assignment_date\<close>, \<^verbatim>\<open>created_date\<close>) and the float
  \<^verbatim>\<open>students_per_mentor_avg\<close> are not modelled: no operation below reads them.
\<close>

record student =
  roll_no :: int
  name :: string
  branch :: string
  year :: int
  email :: "string option"
  phone :: "string option"
  assigned_mentor_id :: "string option"

record mentor =
  faculty_id :: string
  mentor_name :: string
  department :: string
  mentor_email :: "string option"
  mentor_phone :: "string option"
  availability :: bool
  max_students :: int
  assigned_students :: "int list"

text \<open>The \<^verbatim>\<open>notes\<close> of an assignment (here \<open>assignment_notes\<close>) are formatted strings; the model keeps their arguments.\<close>

datatype annotation =
    BatchNote nat
  | BatchWithRemainderNote nat int
  | RemainderBatchNote int
  | CurrentNote nat

record assignment =
  mentor_id :: string
  student_roll_numbers :: "int list"
  batch_number :: int
  assignment_notes :: "annotation option"

record assignment_summary =
  total_students :: nat
  total_mentors :: nat
  total_assignments :: nat
  unassigned_students :: "int list"
  assignments :: "assignment list"

definition opt_val :: "string option \<Rightarrow> pyval" where
  "opt_val x = (case x of None \<Rightarrow> PNone | Some s \<Rightarrow> PStr s)"

text \<open>\<^verbatim>\<open>Student.to_dict\<close>.\<close>

definition student_to_dict :: "student \<Rightarrow> pydict" where
  "student_to_dict s = map_of
     [(''roll_no'', PInt (roll_no s)), (''name'', PStr (name s)), (''branch'', PStr (branch s)),
      (''year'', PInt (year s)), (''email'', opt_val (email s)), (''phone'', opt_val (phone s)),
      (''assigned_mentor_id'', opt_val (assigned_mentor_id s))]"

text \<open>\<^verbatim>\<open>Mentor.get_student_count\<close>, \<^verbatim>\<open>can_accept_students\<close>, \<^verbatim>\<open>get_available_slots\<close>.\<close>

definition get_student_count :: "mentor \<Rightarrow> int" where
  "get_student_count m = int (length (assigned_students m))"

definition can_accept_students :: "mentor \<Rightarrow> int \<Rightarrow> bool" where
  "can_accept_students m count = (availability m \<and> get_student_count m + count \<le> max_students m)"

definition get_available_slots :: "mentor \<Rightarrow> int" where
  "get_available_slots m = max 0 (max_students m - get_student_count m)"

text \<open>\<^verbatim>\<open>Mentor.to_dict\<close>.\<close>

definition mentor_to_dict :: "mentor \<Rightarrow> pydict" where
  "mentor_to_dict m = map_of
     [(''faculty_id'', PStr (faculty_id m)), (''name'', PStr (mentor_name m)),
      (''department'', PStr (department m)), (''email'', opt_val (mentor_email m)),
      (''phone'', opt_val (mentor_phone m)), (''availability'', PBool (availability m)),
      (''max_students'', PInt (max_students m)),
      (''assigned_students'', PList (assigned_students m)),
      (''current_student_count'', PInt (get_student_count m))]"

text \<open>
  The errors the operations raise. \<^verbatim>\<open>ValueError\<close> carries a message; each message of the
  source is a constructor.
\<close>

datatype msg =
    MissingRequiredField string
  | RollNumberOutOfRange int
  | RollNumberNotInteger
  | YearNotValid int
  | YearNotInteger
  | StudentNameEmpty
  | InvalidEmailFormat
  | InvalidPhoneFormat
  | FacultyIdEmpty
  | MentorNameEmpty
  | DepartmentEmpty
  | MaxStudentsNotPositive
  | MaxStudentsNotInteger
  | NoStudentsToAssign
  | NoMentorsAvailable
  | DuplicateRollNumbers
  | DuplicateFacultyIds
  | NotEnoughCapacity int int
  | ExceedCapacityWarning int int
  | NotEnoughMentors int int

datatype issue =
    StudentIssue int msg
  | StudentRaised int pyexn
  | MentorIssue string msg
  | MentorRaised string pyexn
  | Feasibility msg

datatype error =
    DataValidationFailed "issue list"
  | NoAvailableMentorsFound
  | MentorIdEmpty
  | StudentListEmpty
  | BatchNumberNotPositive
  | StopIteration
  | CannotAcceptMoreStudents string
  | StudentAlreadyExists int
  | Raised pyexn

text \<open>\<^verbatim>\<open>Assignment.__post_init__\<close> validates a new assignment.\<close>

definition Assignment :: "string \<Rightarrow> int list \<Rightarrow> int \<Rightarrow> annotation \<Rightarrow> error + assignment" where
  "Assignment mid rolls bn nt =
     (if strip mid = [] then Inl MentorIdEmpty
      else if rolls = [] then Inl StudentListEmpty
      else if bn \<le> 0 then Inl BatchNumberNotPositive
      else Inr \<lparr> mentor_id = mid, student_roll_numbers = rolls, batch_number = bn,
                 assignment_notes = Some nt \<rparr>)"

text \<open>
  \<^verbatim>\<open>Mentor.assign_student\<close>: refuses when the mentor cannot take one more student,
  and does not append a roll number that is already there.
\<close>

definition assign_student :: "mentor \<Rightarrow> int \<Rightarrow> error + mentor" where
  "assign_student m r =
     (if \<not> can_accept_students m 1 then Inl (CannotAcceptMoreStudents (faculty_id m))
      else if r \<notin> set (assigned_students m)
           then Inr (m\<lparr>assigned_students := assigned_students m @ [r]\<rparr>)
      else Inr m)"

section \<open>Validators (utils/validators.py)\<close>

definition validate_roll_number :: "config \<Rightarrow> int \<Rightarrow> bool" where
  "validate_roll_number cfg r = (min_roll_number cfg \<le> r \<and> r \<le> max_roll_number cfg)"

definition validate_year :: "config \<Rightarrow> int \<Rightarrow> bool" where
  "validate_year cfg y = (y \<in> set (valid_years cfg))"

text \<open>
  The pattern \<^verbatim>\<open>^[a-zA-Z0-9._%+-]+@[a-zA-Z0-9.-]+\.[a-zA-Z]{2,}$\<close> under \<^verbatim>\<open>re.match\<close>.
  The first class has no \<^verbatim>\<open>@\<close>, so the local part is the longest prefix in that class;
  the last group is letters only and follows a dot, so it is the longest suffix of letters.
  \<^verbatim>\<open>$\<close> also matches just before one final newline.
\<close>

definition local_char :: "char \<Rightarrow> bool" where
  "local_char c = (is_alpha c \<or> is_digit c \<or> c \<in> set ''._%+-'')"

definition domain_char :: "char \<Rightarrow> bool" where
  "domain_char c = (is_alpha c \<or> is_digit c \<or> c \<in> set ''.-'')"

definition email_pattern_matches :: "string \<Rightarrow> bool" where
  "email_pattern_matches s =
     (let t = (if s \<noteq> [] \<and> last s = CHR 0x0A then butlast s else s);
          rest = dropWhile local_char t;
          r = rev (tl rest);
          d = dropWhile is_alpha r
      in takeWhile local_char t \<noteq> [] \<and> rest \<noteq> [] \<and> hd rest = CHR ''@'' \<and>
         2 \<le> length (takeWhile is_alpha r) \<and> d \<noteq> [] \<and> hd d = CHR ''.'' \<and>
         tl d \<noteq> [] \<and> list_all domain_char (tl d))"

definition validate_email :: "string \<Rightarrow> bool" where
  "validate_email e = (if e = [] then True else email_pattern_matches e)"

text \<open>\<^verbatim>\<open>re.sub(r'\D', '', phone)\<close> keeps the digits.\<close>

definition validate_phone :: "string \<Rightarrow> bool" where
  "validate_phone p =
     (if p = [] then True
      else 10 \<le> length (filter is_digit p) \<and> length (filter is_digit p) \<le> 15)"

text \<open>\<^verbatim>\<open>field not in data or not data[field]\<close>.\<close>

definition field_missing :: "pydict \<Rightarrow> string \<Rightarrow> bool" where
  "field_missing d f = (case d f of None \<Rightarrow> True | Some v \<Rightarrow> \<not> truthy v)"

definition missing_fields :: "string list \<Rightarrow> pydict \<Rightarrow> msg list" where
  "missing_fields required d = map MissingRequiredField (filter (field_missing d) required)"

text \<open>
  The checks of a validator run in sequence, each appending its messages to \<^verbatim>\<open>errors\<close>;
  an exception that no \<^verbatim>\<open>except\<close> clause catches ends the validator.
\<close>

fun seq_checks :: "(pyexn + msg list) list \<Rightarrow> pyexn + msg list" where
  "seq_checks [] = Inr []"
| "seq_checks (c # cs) =
     (case c of Inl e \<Rightarrow> Inl e
      | Inr es \<Rightarrow> (case seq_checks cs of Inl e \<Rightarrow> Inl e | Inr es' \<Rightarrow> Inr (es @ es')))"

definition check_roll_no :: "config \<Rightarrow> pydict \<Rightarrow> pyexn + msg list" where
  "check_roll_no cfg d =
     (case getitem d ''roll_no'' of Inl e \<Rightarrow> Inl e
      | Inr v \<Rightarrow> (case py_int v of None \<Rightarrow> Inr [RollNumberNotInteger]
                 | Some r \<Rightarrow> Inr (if validate_roll_number cfg r then [] else [RollNumberOutOfRange r])))"

definition check_year :: "config \<Rightarrow> pydict \<Rightarrow> pyexn + msg list" where
  "check_year cfg d =
     (case getitem d ''year'' of Inl e \<Rightarrow> Inl e
      | Inr v \<Rightarrow> (case py_int v of None \<Rightarrow> Inr [YearNotInteger]
                 | Some y \<Rightarrow> Inr (if validate_year cfg y then [] else [YearNotValid y])))"

definition check_blank :: "pydict \<Rightarrow> string \<Rightarrow> msg \<Rightarrow> pyexn + msg list" where
  "check_blank d k m =
     (case getitem d k of Inl e \<Rightarrow> Inl e
      | Inr v \<Rightarrow> (case strip_is_empty v of Inl e \<Rightarrow> Inl e
                 | Inr b \<Rightarrow> Inr (if b then [m] else [])))"

text \<open>
  \<^verbatim>\<open>if 'email' in data and data['email']: if not validate_email(data['email'])\<close>;
  \<^verbatim>\<open>re.match\<close> and \<^verbatim>\<open>re.sub\<close> raise \<^verbatim>\<open>TypeError\<close> on a value that is not a string.
\<close>

definition check_email :: "pydict \<Rightarrow> pyexn + msg list" where
  "check_email d =
     (case d ''email'' of None \<Rightarrow> Inr []
      | Some v \<Rightarrow> if \<not> truthy v then Inr []
                  else (case v of PStr e \<Rightarrow> Inr (if validate_email e then [] else [InvalidEmailFormat])
                        | _ \<Rightarrow> Inl TypeError))"

definition check_phone :: "pydict \<Rightarrow> pyexn + msg list" where
  "check_phone d =
     (case d ''phone'' of None \<Rightarrow> Inr []
      | Some v \<Rightarrow> if \<not> truthy v then Inr []
                  else (case v of PStr p \<Rightarrow> Inr (if validate_phone p then [] else [InvalidPhoneFormat])
                        | _ \<Rightarrow> Inl TypeError))"

text \<open>\<^verbatim>\<open>StudentValidator.validate_student\<close>.\<close>

definition validate_student :: "config \<Rightarrow> pydict \<Rightarrow> pyexn + (bool \<times> msg list)" where
  "validate_student cfg d =
     (let errors = missing_fields (required_student_fields cfg) d
      in if errors \<noteq> [] then Inr (False, errors)
         else (case seq_checks [check_roll_no cfg d, check_year cfg d,
                                check_blank d ''name'' StudentNameEmpty,
                                check_email d, check_phone d] of
                 Inl e \<Rightarrow> Inl e
               | Inr errors \<Rightarrow> Inr (errors = [], errors)))"

text \<open>\<^verbatim>\<open>MentorValidator.validate_faculty_id\<close>: \<^verbatim>\<open>bool(faculty_id and faculty_id.strip())\<close>.\<close>

definition validate_faculty_id :: "pyval \<Rightarrow> pyexn + bool" where
  "validate_faculty_id v =
     (if \<not> truthy v then Inr False
      else (case strip_is_empty v of Inl e \<Rightarrow> Inl e | Inr b \<Rightarrow> Inr (\<not> b)))"

definition check_faculty_id :: "pydict \<Rightarrow> pyexn + msg list" where
  "check_faculty_id d =
     (case getitem d ''faculty_id'' of Inl e \<Rightarrow> Inl e
      | Inr v \<Rightarrow> (case validate_faculty_id v of Inl e \<Rightarrow> Inl e
                 | Inr ok \<Rightarrow> Inr (if ok then [] else [FacultyIdEmpty])))"

definition check_max_students :: "pydict \<Rightarrow> pyexn + msg list" where
  "check_max_students d =
     (case d ''max_students'' of None \<Rightarrow> Inr []
      | Some v \<Rightarrow> (case py_int v of None \<Rightarrow> Inr [MaxStudentsNotInteger]
                  | Some k \<Rightarrow> Inr (if k \<le> 0 then [MaxStudentsNotPositive] else [])))"

text \<open>\<^verbatim>\<open>MentorValidator.validate_mentor\<close>.\<close>

definition validate_mentor :: "config \<Rightarrow> pydict \<Rightarrow> pyexn + (bool \<times> msg list)" where
  "validate_mentor cfg d =
     (let errors = missing_fields (required_mentor_fields cfg) d
      in if errors \<noteq> [] then Inr (False, errors)
         else (case seq_checks [check_faculty_id d,
                                check_blank d ''name'' MentorNameEmpty,
                                check_blank d ''department'' DepartmentEmpty,
                                check_email d, check_phone d, check_max_students d] of
                 Inl e \<Rightarrow> Inl e
               | Inr errors \<Rightarrow> Inr (errors = [], errors)))"

text \<open>
  \<^verbatim>\<open>AssignmentValidator.validate_assignment_feasibility\<close>. The result is
  \<^verbatim>\<open>(len(errors) == 0, errors + warnings)\<close>; the division by \<^verbatim>\<open>BATCH_SIZE\<close> raises
  when the batch size is zero. \<^verbatim>\<open>len(xs) != len(set(xs))\<close> says that \<open>xs\<close> has a duplicate.
\<close>

definition total_capacity :: "mentor list \<Rightarrow> int" where
  "total_capacity mentors = sum_list (map max_students (filter availability mentors))"

definition validate_assignment_feasibility ::
  "config \<Rightarrow> student list \<Rightarrow> mentor list \<Rightarrow> pyexn + (bool \<times> msg list)" where
  "validate_assignment_feasibility cfg students mentors =
     (let errors0 = (if students = [] then [NoStudentsToAssign] else []) @
                    (if mentors = [] then [NoMentorsAvailable] else [])
      in if errors0 \<noteq> [] then Inr (False, errors0)
         else if BATCH_SIZE cfg = 0 then Inl ZeroDivisionError
         else
          (let roll_numbers = map roll_no students;
               faculty_ids = map faculty_id mentors;
               total_students = int (length students);
               over = (total_students > total_capacity mentors);
               batches_needed = (total_students + BATCH_SIZE cfg - 1) div BATCH_SIZE cfg;
               errors =
                 (if length roll_numbers \<noteq> length (remdups roll_numbers)
                  then [DuplicateRollNumbers] else []) @
                 (if length faculty_ids \<noteq> length (remdups faculty_ids)
                  then [DuplicateFacultyIds] else []) @
                 (if over \<and> \<not> allow_mentor_overload cfg
                  then [NotEnoughCapacity total_students (total_capacity mentors)] else []) @
                 (if batches_needed > int (length (filter availability mentors))
                     \<and> \<not> wrap_around_mentors cfg
                  then [NotEnoughMentors batches_needed (int (length (filter availability mentors)))]
                  else []);
               warnings =
                 (if over \<and> allow_mentor_overload cfg
                  then [ExceedCapacityWarning total_students (total_capacity mentors)] else [])
           in Inr (errors = [], errors @ warnings)))"

text \<open>
  \<^verbatim>\<open>validate_data_consistency\<close>. Each record is validated inside
  \<^verbatim>\<open>try ... except Exception\<close>, which turns an exception into an issue; the feasibility
  check runs outside any \<^verbatim>\<open>try\<close>. The result is \<^verbatim>\<open>(len(all_issues) == 0, all_issues)\<close>.
\<close>

definition student_issues :: "config \<Rightarrow> student \<Rightarrow> issue list" where
  "student_issues cfg s =
     (case validate_student cfg (student_to_dict s) of
        Inl e \<Rightarrow> [StudentRaised (roll_no s) e]
      | Inr (is_valid, errors) \<Rightarrow>
          if \<not> is_valid then map (StudentIssue (roll_no s)) errors else [])"

definition mentor_issues :: "config \<Rightarrow> mentor \<Rightarrow> issue list" where
  "mentor_issues cfg m =
     (case validate_mentor cfg (mentor_to_dict m) of
        Inl e \<Rightarrow> [MentorRaised (faculty_id m) e]
      | Inr (is_valid, errors) \<Rightarrow>
          if \<not> is_valid then map (MentorIssue (faculty_id m)) errors else [])"

definition validate_data_consistency ::
  "config \<Rightarrow> student list \<Rightarrow> mentor list \<Rightarrow> pyexn + (bool \<times> issue list)" where
  "validate_data_consistency cfg students mentors =
     (let record_issues = concat (map (student_issues cfg) students) @
                          concat (map (mentor_issues cfg) mentors)
      in case validate_assignment_feasibility cfg students mentors of
           Inl e \<Rightarrow> Inl e
         | Inr (is_feasible, feasibility_issues) \<Rightarrow>
             (let all_issues = record_issues @ map Feasibility feasibility_issues
              in Inr (all_issues = [], all_issues)))"

section \<open>Assignment engine (services/assignment_service.py)\<close>

text \<open>
  \<^verbatim>\<open>Student\<close> and \<^verbatim>\<open>Mentor\<close> objects are updated in place. The model passes their state
  along: \<open>studs\<close> holds the student objects in processing order (the order of the list
  that \<^verbatim>\<open>sorted\<close> returns when sorting is configured), \<open>ments\<close> holds the mentor objects in
  the order of the caller's list. \<^verbatim>\<open>available_mentors\<close> is a list of references into
  \<^verbatim>\<open>mentors\<close>: the model keeps the positions. The other fields are the local variables
  \<^verbatim>\<open>current_mentor_index\<close>, \<^verbatim>\<open>assignments\<close> and \<^verbatim>\<open>unassigned_students\<close>.
\<close>

record run_state =
  current_mentor_index :: nat
  assignments_made :: "assignment list"
  unassigned :: "student list"
  studs :: "student list"
  ments :: "mentor list"

text \<open>\<^verbatim>\<open>xs[lo:hi]\<close> for \<open>0 \<le> lo \<le> hi\<close>; Python clips a slice at the end of the list.\<close>

definition slice :: "'a list \<Rightarrow> nat \<Rightarrow> nat \<Rightarrow> 'a list" where
  "slice xs lo hi = take (hi - lo) (drop lo xs)"

text \<open>\<^verbatim>\<open>for student in xs[lo:hi]: student.assigned_mentor_id = fid\<close>.\<close>

definition set_assigned_mentor :: "string \<Rightarrow> student \<Rightarrow> student" where
  "set_assigned_mentor fid s = s\<lparr>assigned_mentor_id := Some fid\<rparr>"

definition assign_range :: "string \<Rightarrow> nat \<Rightarrow> nat \<Rightarrow> student list \<Rightarrow> student list" where
  "assign_range fid lo hi xs = take lo xs @ map (set_assigned_mentor fid) (slice xs lo hi) @ drop hi xs"

text \<open>\<^verbatim>\<open>mentor.assigned_students.extend(rolls)\<close> on the mentor at position \<open>i\<close>.\<close>

definition extend_assigned :: "nat \<Rightarrow> int list \<Rightarrow> mentor list \<Rightarrow> mentor list" where
  "extend_assigned i rolls ms = ms[i := (ms ! i)\<lparr>assigned_students := assigned_students (ms ! i) @ rolls\<rparr>]"

text \<open>
  One iteration of \<^verbatim>\<open>for batch_num in range(complete_batches)\<close> (lines 76-119). The loop
  runs only when \<^verbatim>\<open>BATCH_SIZE\<close> is positive. An index past the end of
  \<^verbatim>\<open>available_mentors\<close> would raise \<^verbatim>\<open>IndexError\<close>.
\<close>

definition process_batch :: "config \<Rightarrow> nat list \<Rightarrow> nat \<Rightarrow> run_state \<Rightarrow> error + run_state" where
  "process_batch cfg available_mentors batch_num st =
     (let batch_size = nat (BATCH_SIZE cfg);
          start_idx = batch_num * batch_size;
          end_idx = start_idx + batch_size;
          batch_students = slice (studs st) start_idx end_idx
      in if current_mentor_index st \<ge> length available_mentors \<and> \<not> wrap_around_mentors cfg
         then Inr (st\<lparr>unassigned := unassigned st @ batch_students\<rparr>)
         else
          (let idx = (if current_mentor_index st \<ge> length available_mentors then 0
                      else current_mentor_index st)
           in if idx \<ge> length available_mentors then Inl (Raised IndexError)
              else
               (let mi = available_mentors ! idx;
                    current_mentor = ments st ! mi;
                    student_roll_numbers = map roll_no batch_students
                in case Assignment (faculty_id current_mentor) student_roll_numbers
                          (int batch_num + 1) (BatchNote (length batch_students)) of
                     Inl e \<Rightarrow> Inl e
                   | Inr a \<Rightarrow>
                       Inr \<lparr> current_mentor_index = idx + 1,
                             assignments_made = assignments_made st @ [a],
                             unassigned = unassigned st,
                             studs = assign_range (faculty_id current_mentor) start_idx end_idx (studs st),
                             ments = extend_assigned mi student_roll_numbers (ments st) \<rparr>)))"

text \<open>The loop: an exception leaves the objects as they are at that moment.\<close>

fun process_batches ::
  "config \<Rightarrow> nat list \<Rightarrow> nat list \<Rightarrow> run_state \<Rightarrow> error option \<times> run_state" where
  "process_batches cfg available_mentors [] st = (None, st)"
| "process_batches cfg available_mentors (b # bs) st =
     (case process_batch cfg available_mentors b st of
        Inl e \<Rightarrow> (Some e, st)
      | Inr st' \<Rightarrow> process_batches cfg available_mentors bs st')"

text \<open>
  The remainder (lines 121-189). \<^verbatim>\<open>next(m for m in available_mentors if ...)\<close> raises
  \<^verbatim>\<open>StopIteration\<close> when no mentor has the identifier.
\<close>

definition fold_remainder ::
  "nat \<Rightarrow> int \<Rightarrow> nat \<Rightarrow> run_state \<Rightarrow> run_state" where
  "fold_remainder mi remainder_students_count start_idx st =
     (let last_assignment = last (assignments_made st);
          last_mentor = ments st ! mi;
          remainder_roll_numbers = map roll_no (drop start_idx (studs st));
          new_rolls = student_roll_numbers last_assignment @ remainder_roll_numbers
      in st\<lparr> assignments_made := butlast (assignments_made st) @
                 [last_assignment\<lparr> student_roll_numbers := new_rolls,
                    assignment_notes :=
                      Some (BatchWithRemainderNote (length new_rolls) remainder_students_count) \<rparr>],
              ments := extend_assigned mi remainder_roll_numbers (ments st),
              studs := assign_range (faculty_id last_mentor) start_idx (length (studs st)) (studs st) \<rparr>)"

definition handle_remainder ::
  "config \<Rightarrow> nat list \<Rightarrow> nat \<Rightarrow> int \<Rightarrow> run_state \<Rightarrow> error + run_state" where
  "handle_remainder cfg available_mentors complete_batches remainder_students_count st =
     (if \<not> remainder_students_count > 0 then Inr st
      else
       (let start_idx = complete_batches * nat (BATCH_SIZE cfg);
            remainder_students = drop start_idx (studs st)
        in if remainder_students_count \<le> remainder_threshold cfg
           then
            (if assignments_made st \<noteq> []
             then
              (let last_assignment = last (assignments_made st)
               in case find (\<lambda>i. faculty_id (ments st ! i) = mentor_id last_assignment)
                         available_mentors of
                    None \<Rightarrow> Inl StopIteration
                  | Some mi \<Rightarrow>
                     (let last_mentor = ments st ! mi;
                          total_after_addition =
                            int (length (student_roll_numbers last_assignment))
                              + remainder_students_count
                      in if total_after_addition > max_students last_mentor
                            \<and> \<not> allow_mentor_overload cfg
                         then Inr (st\<lparr>unassigned := unassigned st @ remainder_students\<rparr>)
                         else Inr (fold_remainder mi remainder_students_count start_idx st)))
             else Inr (st\<lparr>unassigned := unassigned st @ remainder_students\<rparr>))
           else
            (if current_mentor_index st < length available_mentors
             then
              (let mi = available_mentors ! current_mentor_index st;
                   current_mentor = ments st ! mi;
                   remainder_roll_numbers = map roll_no remainder_students
               in case Assignment (faculty_id current_mentor) remainder_roll_numbers
                         (int complete_batches + 1) (RemainderBatchNote remainder_students_count) of
                    Inl e \<Rightarrow> Inl e
                  | Inr a \<Rightarrow>
                      Inr (st\<lparr> assignments_made := assignments_made st @ [a],
                               ments := extend_assigned mi remainder_roll_numbers (ments st),
                               studs := assign_range (faculty_id current_mentor) start_idx
                                          (length (studs st)) (studs st) \<rparr>))
             else Inr (st\<lparr>unassigned := unassigned st @ remainder_students\<rparr>))))"

text \<open>\<^verbatim>\<open>_create_assignment_summary\<close>.\<close>

definition create_assignment_summary ::
  "student list \<Rightarrow> mentor list \<Rightarrow> assignment list \<Rightarrow> student list \<Rightarrow> assignment_summary" where
  "create_assignment_summary students mentors asgs unassigned_studs =
     \<lparr> total_students = length students, total_mentors = length mentors,
       total_assignments = length asgs,
       unassigned_students = map roll_no unassigned_studs,
       assignments = asgs \<rparr>"

text \<open>\<^verbatim>\<open>for mentor in available_mentors: mentor.assigned_students = []\<close>.\<close>

definition reset_available :: "mentor list \<Rightarrow> mentor list" where
  "reset_available mentors =
     map (\<lambda>m. if availability m then m\<lparr>assigned_students := []\<rparr> else m) mentors"

definition available_positions :: "mentor list \<Rightarrow> nat list" where
  "available_positions mentors = filter (\<lambda>i. availability (mentors ! i)) [0..<length mentors]"

text \<open>
  \<^verbatim>\<open>AssignmentService.assign_students_to_mentors\<close>. The result is the summary, or the
  exception raised, together with the state of the student objects and of the mentor
  objects when the call ends.
\<close>

definition assign_students_to_mentors ::
  "config \<Rightarrow> student list \<Rightarrow> mentor list \<Rightarrow>
     (error + assignment_summary) \<times> student list \<times> mentor list" where
  "assign_students_to_mentors cfg students0 mentors =
     (case validate_data_consistency cfg students0 mentors of
        Inl e \<Rightarrow> (Inl (Raised e), students0, mentors)
      | Inr (is_valid, issues) \<Rightarrow>
         if \<not> is_valid then (Inl (DataValidationFailed issues), students0, mentors)
         else
          (let students = (if sort_by_roll_number cfg then sort_key roll_no students0
                           else students0);
               available_mentors = available_positions mentors
           in if available_mentors = [] then (Inl NoAvailableMentorsFound, students, mentors)
              else if BATCH_SIZE cfg = 0
                then (Inl (Raised ZeroDivisionError), students, reset_available mentors)
              else
               (let complete_batches = nat (int (length students) div BATCH_SIZE cfg);
                    remainder_students_count = int (length students) mod BATCH_SIZE cfg;
                    st0 = \<lparr> current_mentor_index = 0, assignments_made = [], unassigned = [],
                            studs = students, ments = reset_available mentors \<rparr>
                in case process_batches cfg available_mentors [0..<complete_batches] st0 of
                     (Some e, st) \<Rightarrow> (Inl e, studs st, ments st)
                   | (None, st1) \<Rightarrow>
                      (case handle_remainder cfg available_mentors complete_batches
                              remainder_students_count st1 of
                         Inl e \<Rightarrow> (Inl e, studs st1, ments st1)
                       | Inr st2 \<Rightarrow>
                           (Inr (create_assignment_summary students mentors
                                   (assignments_made st2) (unassigned st2)),
                            studs st2, ments st2)))))"

subsection \<open>Incremental add (add\_new\_students)\<close>

text \<open>
  The state of \<^verbatim>\<open>add_new_students\<close>: the local lists \<^verbatim>\<open>assigned_students\<close> and
  \<^verbatim>\<open>unassigned_students\<close> (the new student objects, those already appended to
  \<^verbatim>\<open>assigned_students\<close> and those not yet) and the mentor objects in list order.
\<close>

record add_state =
  assigned_new :: "student list"
  unassigned_new :: "student list"
  mentors_now :: "mentor list"

text \<open>
  The inner loop \<^verbatim>\<open>for student in students_to_assign\<close> over the first \<open>c\<close> unassigned
  students, for the mentor at position \<open>mi\<close>: the student's \<^verbatim>\<open>assigned_mentor_id\<close> is set
  first, then \<^verbatim>\<open>mentor.assign_student\<close> may raise, then the student is appended to
  \<^verbatim>\<open>assigned_students\<close>. The slice \<^verbatim>\<open>unassigned_students[can_assign:]\<close> taken after the
  loop is what remains here.
\<close>

fun assign_each :: "nat \<Rightarrow> nat \<Rightarrow> add_state \<Rightarrow> error option \<times> add_state" where
  "assign_each mi 0 st = (None, st)"
| "assign_each mi (Suc c) st =
     (case unassigned_new st of
        [] \<Rightarrow> (None, st)
      | s # rest \<Rightarrow>
         (let m = mentors_now st ! mi;
              s' = set_assigned_mentor (faculty_id m) s
          in case assign_student m (roll_no s) of
               Inl e \<Rightarrow> (Some e, st\<lparr>unassigned_new := s' # rest\<rparr>)
             | Inr m' \<Rightarrow>
                 assign_each mi c
                   \<lparr> assigned_new = assigned_new st @ [s'], unassigned_new = rest,
                     mentors_now = (mentors_now st)[mi := m'] \<rparr>))"

text \<open>
  The loop \<^verbatim>\<open>for mentor, available_slots in available_mentors\<close>, with its \<^verbatim>\<open>break\<close> when
  no student is left. The slots were computed before the loop.
\<close>

fun greedy_pass :: "(nat \<times> int) list \<Rightarrow> add_state \<Rightarrow> error option \<times> add_state" where
  "greedy_pass [] st = (None, st)"
| "greedy_pass ((mi, available_slots) # rest) st =
     (if unassigned_new st = [] then (None, st)
      else
       (let can_assign = nat (min available_slots (int (length (unassigned_new st))))
        in case assign_each mi can_assign st of
             (Some e, st') \<Rightarrow> (Some e, st')
           | (None, st') \<Rightarrow> greedy_pass rest st'))"

text \<open>The mentors with free capacity, with their free slots, sorted by slots (a stable sort).\<close>

definition capacity_mentors :: "mentor list \<Rightarrow> (nat \<times> int) list" where
  "capacity_mentors mentors =
     sort_key snd
       (map (\<lambda>i. (i, get_available_slots (mentors ! i)))
          (filter (\<lambda>i. availability (mentors ! i) \<and> get_available_slots (mentors ! i) > 0)
             [0..<length mentors]))"

text \<open>
  Lines 281-295: with students left and overload allowed, all of them are given to the
  first available mentor, through \<^verbatim>\<open>mentor.assign_student\<close>.
\<close>

definition overload_pass :: "config \<Rightarrow> add_state \<Rightarrow> error option \<times> add_state" where
  "overload_pass cfg st =
     (if unassigned_new st \<noteq> [] \<and> allow_mentor_overload cfg
      then (case available_positions (mentors_now st) of
              [] \<Rightarrow> (None, st)
            | mi # _ \<Rightarrow> assign_each mi (length (unassigned_new st)) st)
      else (None, st))"

text \<open>\<^verbatim>\<open>_extract_current_assignments\<close>: one assignment for each mentor that has students.\<close>

fun extract_from :: "nat \<Rightarrow> mentor list \<Rightarrow> error + assignment list" where
  "extract_from i [] = Inr []"
| "extract_from i (m # ms) =
     (if assigned_students m \<noteq> []
      then (case Assignment (faculty_id m) (assigned_students m) (int i + 1)
                   (CurrentNote (length (assigned_students m))) of
              Inl e \<Rightarrow> Inl e
            | Inr a \<Rightarrow> (case extract_from (Suc i) ms of Inl e \<Rightarrow> Inl e | Inr as \<Rightarrow> Inr (a # as)))
      else extract_from (Suc i) ms)"

definition extract_current_assignments :: "student list \<Rightarrow> mentor list \<Rightarrow> error + assignment list" where
  "extract_current_assignments students mentors = extract_from 0 mentors"

text \<open>
  \<^verbatim>\<open>AssignmentService.add_new_students\<close>. The result is the pair the call returns, or the
  exception raised, together with the state of the existing students, of the new
  students (in processing order) and of the mentors when the call ends.
\<close>

definition add_new_students ::
  "config \<Rightarrow> student list \<Rightarrow> student list \<Rightarrow> mentor list \<Rightarrow>
     (error + assignment_summary \<times> student list) \<times> student list \<times> student list \<times> mentor list" where
  "add_new_students cfg existing_students new_students0 mentors =
     (case find (\<lambda>student. \<exists>s \<in> set existing_students. roll_no s = roll_no student)
             new_students0 of
        Some student \<Rightarrow>
          (Inl (StudentAlreadyExists (roll_no student)), existing_students, new_students0, mentors)
      | None \<Rightarrow>
         (let new_students = (if sort_by_roll_number cfg then sort_key roll_no new_students0
                               else new_students0);
              st0 = \<lparr> assigned_new = [], unassigned_new = new_students, mentors_now = mentors \<rparr>
          in case greedy_pass (capacity_mentors mentors) st0 of
               (Some e, st) \<Rightarrow>
                 (Inl e, existing_students, assigned_new st @ unassigned_new st, mentors_now st)
             | (None, st1) \<Rightarrow>
                (case overload_pass cfg st1 of
                   (Some e, st) \<Rightarrow>
                     (Inl e, existing_students, assigned_new st @ unassigned_new st, mentors_now st)
                 | (None, st2) \<Rightarrow>
                    (let all_students = existing_students @ assigned_new st2 @ unassigned_new st2
                     in case extract_current_assignments all_students (mentors_now st2) of
                          Inl e \<Rightarrow>
                            (Inl e, existing_students, assigned_new st2 @ unassigned_new st2,
                             mentors_now st2)
                        | Inr current_assignments \<Rightarrow>
                            (Inr (create_assignment_summary all_students (mentors_now st2)
                                    current_assignments (unassigned_new st2), all_students),
                             existing_students, assigned_new st2 @ unassigned_new st2,
                             mentors_now st2)))))"

section \<open>Concrete records used in examples\<close>

text \<open>
  \<^verbatim>\<open>Student(i, "Student", "CSE", 1)\<close> and \<^verbatim>\<open>Mentor(f, "Dr. Mentor", "Computer Science",
  max_students=k)\<close>, as the repository's tests build them.
\<close>

definition new_student :: "int \<Rightarrow> student" where
  "new_student i = \<lparr> roll_no = i, name = ''Student'', branch = ''CSE'', year = 1,
     email = None, phone = None, assigned_mentor_id = None \<rparr>"

definition new_mentor :: "string \<Rightarrow> int \<Rightarrow> mentor" where
  "new_mentor f k = \<lparr> faculty_id = f, mentor_name = ''Dr. Mentor'',
     department = ''Computer Science'', mentor_email = None, mentor_phone = None,
     availability = True, max_students = k, assigned_students = [] \<rparr>"

text \<open>The students of complete batch \<open>b\<close>: \<^verbatim>\<open>students[b * batch_size : b * batch_size + batch_size]\<close>.\<close>

definition batch_slice :: "config \<Rightarrow> student list \<Rightarrow> nat \<Rightarrow> student list" where
  "batch_slice cfg xs b =
     slice xs (b * nat (BATCH_SIZE cfg)) (b * nat (BATCH_SIZE cfg) + nat (BATCH_SIZE cfg))"

text \<open>The default configuration with \<^verbatim>\<open>allow_mentor_overload\<close> switched off.\<close>

definition overload_off :: config where
  "overload_off = Config\<lparr>allow_mentor_overload := False\<rparr>"

text \<open>Two raw student records: one without \<^verbatim>\<open>branch\<close> and with a malformed email, one
  with every required field and five violations.\<close>

definition record_without_branch :: pydict where
  "record_without_branch = map_of
     [(''roll_no'', PStr ''123''), (''name'', PStr ''John Doe''), (''year'', PStr ''2''),
      (''email'', PStr ''not-an-email'')]"

definition record_with_five_errors :: pydict where
  "record_with_five_errors = map_of
     [(''roll_no'', PStr ''12345''), (''name'', PStr ''  ''), (''branch'', PStr ''CSE''),
      (''year'', PStr ''5''), (''email'', PStr ''not-an-email''), (''phone'', PStr ''12'')]"

text \<open>A record whose roll number is the separator 0x1C followed by \<^verbatim>\<open>5\<close> and whose year is
  \<^verbatim>\<open>1\<close> followed by the separator 0x1F.\<close>

definition record_with_separators :: pydict where
  "record_with_separators = map_of
     [(''roll_no'', PStr [CHR 0x1C, CHR ''5'']), (''name'', PStr ''John Doe''),
      (''branch'', PStr ''CSE''), (''year'', PStr [CHR ''1'', CHR 0x1F])]"

text \<open>
  Names for what \<open>assign_students_to_mentors\<close> computes before its loop: the list in
  processing order, the number of complete batches, the remainder and the state the loop
  starts from.
\<close>

definition processing_order :: "config \<Rightarrow> student list \<Rightarrow> student list" where
  "processing_order cfg students0 =
     (if sort_by_roll_number cfg then sort_key roll_no students0 else students0)"

definition complete_batches_of :: "config \<Rightarrow> student list \<Rightarrow> nat" where
  "complete_batches_of cfg students0 = nat (int (length students0) div BATCH_SIZE cfg)"

definition remainder_of :: "config \<Rightarrow> student list \<Rightarrow> int" where
  "remainder_of cfg students0 = int (length students0) mod BATCH_SIZE cfg"

definition initial_state :: "config \<Rightarrow> student list \<Rightarrow> mentor list \<Rightarrow> run_state" where
  "initial_state cfg students0 mentors =
     \<lparr> current_mentor_index = 0, assignments_made = [], unassigned = [],
       studs = processing_order cfg students0, ments = reset_available mentors \<rparr>"

text \<open>Two states of the mentor list that agree at every position outside \<open>A\<close>.\<close>

definition same_outside :: "nat set \<Rightarrow> mentor list \<Rightarrow> mentor list \<Rightarrow> bool" where
  "same_outside A ms ms' = (length ms' = length ms \<and> (\<forall>i < length ms. i \<notin> A \<longrightarrow> ms' ! i = ms ! i))"

text \<open>A mentor that is not available and still holds two students of an earlier run.\<close>

definition retired_mentor :: mentor where
  "retired_mentor = (new_mentor ''FAC000'' 30)\<lparr>availability := False, assigned_students := [7, 8]\<rparr>"

section \<open>Invariants of a run\<close>

text \<open>
  The batch loop and the remainder step handle the students in processing order. The
  predicates below describe the state once the first \<open>d\<close> students of \<open>S\<close> have been handled,
  for the mentor objects \<open>M0\<close> the loop starts from and the positions \<open>av\<close> of the available
  mentors.
\<close>

text \<open>The roll numbers that a list of assignments holds, in order.\<close>

definition rolls_of :: "assignment list \<Rightarrow> int list" where
  "rolls_of asgs = concat (map student_roll_numbers asgs)"

text \<open>The roll numbers of the student objects are those of \<open>S\<close>, position by position, and the
  roll numbers held by the assignments and by the unassigned list are, without repetition, those
  of the first \<open>d\<close> students.\<close>

definition cover :: "student list \<Rightarrow> nat \<Rightarrow> run_state \<Rightarrow> bool" where
  "cover S d st =
     (map roll_no (studs st) = map roll_no S \<and>
      distinct (rolls_of (assignments_made st) @ map roll_no (unassigned st)) \<and>
      set (rolls_of (assignments_made st) @ map roll_no (unassigned st)) = set (map roll_no (take d S)))"

text \<open>The mentor objects keep their identifier and availability, and every assignment made so
  far names an available mentor whose \<open>assigned_students\<close> hold the roll numbers of the assignment.\<close>

definition mentors_agree :: "nat list \<Rightarrow> mentor list \<Rightarrow> run_state \<Rightarrow> bool" where
  "mentors_agree av M0 st =
     (map faculty_id (ments st) = map faculty_id M0 \<and>
      map availability (ments st) = map availability M0 \<and>
      (\<forall>a\<in>set (assignments_made st). \<exists>i\<in>set av.
          faculty_id (M0 ! i) = mentor_id a \<and>
          set (student_roll_numbers a) \<subseteq> set (assigned_students (ments st ! i))))"

text \<open>Every student object whose roll number is in an assignment carries that assignment's mentor.\<close>

definition students_agree :: "run_state \<Rightarrow> bool" where
  "students_agree st =
     (\<forall>a\<in>set (assignments_made st). \<forall>s\<in>set (studs st).
         roll_no s \<in> set (student_roll_numbers a) \<longrightarrow> assigned_mentor_id s = Some (mentor_id a))"

text \<open>The three together.\<close>

definition loop_invariant :: "nat list \<Rightarrow> student list \<Rightarrow> mentor list \<Rightarrow> nat \<Rightarrow> run_state \<Rightarrow> bool" where
  "loop_invariant av S M0 d st = (cover S d st \<and> mentors_agree av M0 st \<and> students_agree st)"

text \<open>The assignments \<open>asgs'\<close> are those of \<open>asgs\<close>, except for assignments to the mentor \<open>fid\<close>
  that hold roll numbers of \<open>rolls\<close> or of earlier assignments of \<open>fid\<close>: what appending an
  assignment and what folding the remainder into the last one both do.\<close>

definition extends_by :: "string \<Rightarrow> int list \<Rightarrow> assignment list \<Rightarrow> assignment list \<Rightarrow> bool" where
  "extends_by fid rolls asgs asgs' =
     (\<forall>a'\<in>set asgs'. a' \<in> set asgs \<or>
        (mentor_id a' = fid \<and>
         (\<forall>r\<in>set (student_roll_numbers a'). r \<in> set rolls \<or>
            (\<exists>a0\<in>set asgs. mentor_id a0 = fid \<and> r \<in> set (student_roll_numbers a0)))))"

subsection \<open>The remainder step in a run\<close>

text \<open>
  \<^verbatim>\<open>remainder_students = students[start_idx:]\<close> with
  \<^verbatim>\<open>start_idx = complete_batches * batch_size\<close> (lines 124-125).
\<close>

definition remainder_students :: "config \<Rightarrow> nat \<Rightarrow> run_state \<Rightarrow> student list" where
  "remainder_students cfg complete_batches st =
     drop (complete_batches * nat (BATCH_SIZE cfg)) (studs st)"

text \<open>The state in which the batch loop of a run ends, where the remainder step starts.\<close>

definition after_batches :: "config \<Rightarrow> student list \<Rightarrow> mentor list \<Rightarrow> run_state" where
  "after_batches cfg students0 mentors =
     snd (process_batches cfg (available_positions mentors)
            [0..<complete_batches_of cfg students0] (initial_state cfg students0 mentors))"

text \<open>The default configuration with \<^verbatim>\<open>wrap_around_mentors\<close> switched on, the same with
  \<^verbatim>\<open>allow_mentor_overload\<close> switched off as well, and lists of two and of three mentors of one
  capacity.\<close>

definition wrap_on :: config where
  "wrap_on = Config\<lparr>wrap_around_mentors := True\<rparr>"

definition wrap_on_overload_off :: config where
  "wrap_on_overload_off = Config\<lparr>wrap_around_mentors := True, allow_mentor_overload := False\<rparr>"

definition two_mentors :: "int \<Rightarrow> mentor list" where
  "two_mentors c = [new_mentor ''FAC001'' c, new_mentor ''FAC002'' c]"

definition three_mentors :: "int \<Rightarrow> mentor list" where
  "three_mentors c = [new_mentor ''FAC001'' c, new_mentor ''FAC002'' c, new_mentor ''FAC003'' c]"

section \<open>Verified properties\<close>

subsection \<open>Rejecting duplicates in add\_new\_students\<close>

text \<open>
  Claim C7. When some new student's roll number equals the roll number of an existing
  student, \<open>add_new_students\<close> raises, naming such a roll number, and nothing is changed:
  the existing students, the new students and the mentors are as they were before the call.
\<close>

theorem add_new_students_rejects_existing_roll:
  assumes "\<exists>n \<in> set new_students. \<exists>s \<in> set existing_students. roll_no s = roll_no n"
  shows "\<exists>n \<in> set new_students. (\<exists>s \<in> set existing_students. roll_no s = roll_no n) \<and>
           add_new_students cfg existing_students new_students mentors =
             (Inl (StudentAlreadyExists (roll_no n)), existing_students, new_students, mentors)"
proof -
  let ?P = "\<lambda>student. \<exists>s \<in> set existing_students. roll_no s = roll_no student"
  from assms have "find ?P new_students \<noteq> None"
    unfolding find_None_iff by blast
  then obtain n where f: "find ?P new_students = Some n" by blast
  then have "n \<in> set new_students" and "?P n"
    by (auto simp: find_Some_iff)
  moreover from f have "add_new_students cfg existing_students new_students mentors =
             (Inl (StudentAlreadyExists (roll_no n)), existing_students, new_students, mentors)"
    by (simp add: add_new_students_def)
  ultimately show ?thesis by blast
qed

theorem add_new_students_rejects_existing_roll_witness:
  "(\<exists>n \<in> set [new_student 1, new_student 2]. \<exists>s \<in> set [new_student 2]. roll_no s = roll_no n) \<and>
   (\<exists>n \<in> set [new_student 1, new_student 2].
      (\<exists>s \<in> set [new_student 2]. roll_no s = roll_no n) \<and>
      add_new_students Config [new_student 2] [new_student 1, new_student 2]
          [new_mentor ''FAC001'' 30] =
        (Inl (StudentAlreadyExists (roll_no n)), [new_student 2],
         [new_student 1, new_student 2], [new_mentor ''FAC001'' 30]))"
proof -
  have h: "\<exists>n \<in> set [new_student 1, new_student 2]. \<exists>s \<in> set [new_student 2]. roll_no s = roll_no n"
    by simp
  from add_new_students_rejects_existing_roll [OF h] h show ?thesis by blast
qed

subsection \<open>The skip branch of the batch loop\<close>

text \<open>
  What the skip branch (lines 89-93) does to a state whose cursor is at or past the end of the
  list of available mentors, with \<open>wrap_around_mentors\<close> disabled: the loop over any further
  complete batches leaves the cursor, the assignments, the students and the mentors as they
  are and appends the students of every one of these batches to \<open>unassigned\<close>.
\<close>

lemma skip_branch_unassigns:
  assumes "\<not> wrap_around_mentors cfg"
    and "current_mentor_index st \<ge> length available_mentors"
  shows "process_batches cfg available_mentors bs st =
           (None, st\<lparr>unassigned := unassigned st @ concat (map (batch_slice cfg (studs st)) bs)\<rparr>)"
  using assms
proof (induction bs arbitrary: st)
  case Nil
  then show ?case by simp
next
  case (Cons b bs)
  let ?st' = "st\<lparr>unassigned := unassigned st @ batch_slice cfg (studs st) b\<rparr>"
  have step: "process_batch cfg available_mentors b st = Inr ?st'"
    using Cons.prems by (simp add: process_batch_def batch_slice_def Let_def)
  have "current_mentor_index ?st' \<ge> length available_mentors"
    using Cons.prems by simp
  from Cons.IH [OF Cons.prems(1) this] step show ?case
    by simp
qed






subsection \<open>Capacity is not checked in the batch loop\<close>

text \<open>
  Claim C3 says that after a successful run with \<open>allow_mentor_overload\<close> disabled no
  mentor holds more students than \<open>max_students\<close>. The batch loop never compares a batch
  with the capacity of the mentor it goes to: the feasibility check only compares the
  number of students with the sum of the capacities. With overload disabled, 30 students
  and two available mentors of capacity 10 and 100, validation passes, the run succeeds,
  and the first mentor ends with 30 students.
\<close>

theorem batch_exceeds_mentor_capacity:
  "assign_students_to_mentors overload_off (map new_student [1..30])
       [new_mentor ''FAC001'' 10, new_mentor ''FAC002'' 100] =
     (Inr \<lparr> total_students = 30, total_mentors = 2, total_assignments = 1,
            unassigned_students = [],
            assignments = [\<lparr> mentor_id = ''FAC001'', student_roll_numbers = [1..30],
                             batch_number = 1, assignment_notes = Some (BatchNote 30) \<rparr>] \<rparr>,
      map (set_assigned_mentor ''FAC001'') (map new_student [1..30]),
      [(new_mentor ''FAC001'' 10)\<lparr>assigned_students := [1..30]\<rparr>, new_mentor ''FAC002'' 100])
   \<and> \<not> allow_mentor_overload overload_off
   \<and> int (length [1..30::int]) > max_students (new_mentor ''FAC001'' 10)"
  by code_simp

subsection \<open>The capacity warning blocks the run\<close>

text \<open>
  Claim C4 says that with \<open>allow_mentor_overload\<close> enabled a capacity shortfall is only a
  warning and the run proceeds. \<open>validate_assignment_feasibility\<close> does return
  \<open>(True, [warning])\<close>, but \<open>validate_data_consistency\<close> ignores that flag and answers
  \<^verbatim>\<open>len(all_issues) == 0\<close>, so the warning makes the run raise. Two students, one
  available mentor of capacity 1, default configuration (overload enabled):
\<close>

theorem capacity_warning_aborts_run:
  "total_capacity [new_mentor ''FAC001'' 1] < int (length (map new_student [1, 2]))
   \<and> allow_mentor_overload Config
   \<and> validate_assignment_feasibility Config (map new_student [1, 2]) [new_mentor ''FAC001'' 1]
       = Inr (True, [ExceedCapacityWarning 2 1])
   \<and> validate_data_consistency Config (map new_student [1, 2]) [new_mentor ''FAC001'' 1]
       = Inr (False, [Feasibility (ExceedCapacityWarning 2 1)])
   \<and> assign_students_to_mentors Config (map new_student [1, 2]) [new_mentor ''FAC001'' 1]
       = (Inl (DataValidationFailed [Feasibility (ExceedCapacityWarning 2 1)]),
          map new_student [1, 2], [new_mentor ''FAC001'' 1])"
  by code_simp

subsection \<open>The overload pass of add\_new\_students raises\<close>

text \<open>
  Claim C6 says that with \<open>allow_mentor_overload\<close> enabled the students left after the
  greedy pass are all given to the first available mentor whatever its capacity. The
  overload pass assigns through \<open>assign_student\<close>, which refuses a mentor that is full.
  One available mentor of capacity 1 and two new students, default configuration: the
  greedy pass assigns the first student, and the overload pass raises on the second.
\<close>

theorem overload_pass_raises_on_full_mentor:
  "allow_mentor_overload Config
   \<and> greedy_pass (capacity_mentors [new_mentor ''FAC001'' 1])
        \<lparr> assigned_new = [], unassigned_new = [new_student 1, new_student 2],
          mentors_now = [new_mentor ''FAC001'' 1] \<rparr>
       = (None, \<lparr> assigned_new = [set_assigned_mentor ''FAC001'' (new_student 1)],
                  unassigned_new = [new_student 2],
                  mentors_now = [(new_mentor ''FAC001'' 1)\<lparr>assigned_students := [1]\<rparr>] \<rparr>)
   \<and> add_new_students Config [] [new_student 1, new_student 2] [new_mentor ''FAC001'' 1]
       = (Inl (CannotAcceptMoreStudents ''FAC001''), [],
          [set_assigned_mentor ''FAC001'' (new_student 1),
           set_assigned_mentor ''FAC001'' (new_student 2)],
          [(new_mentor ''FAC001'' 1)\<lparr>assigned_students := [1]\<rparr>])"
  by code_simp

subsection \<open>What validate\_student reports\<close>

text \<open>
  Claim C8 as stated, refuted: a record that lacks the required field \<^verbatim>\<open>branch\<close> and has
  a malformed email (the email check of the validator itself rejects it) gets the single
  message about the missing field; the email is not reported.
\<close>

theorem validate_student_stops_at_missing_field:
  "check_email record_without_branch = Inr [InvalidEmailFormat] \<and>
   validate_student Config record_without_branch = Inr (False, [MissingRequiredField ''branch''])"
  by code_simp

lemma seq_checks_five:
  "seq_checks [a, b, c, d, e] = Inr es \<Longrightarrow>
     \<exists>e1 e2 e3 e4 e5. a = Inr e1 \<and> b = Inr e2 \<and> c = Inr e3 \<and> d = Inr e4 \<and> e = Inr e5 \<and>
        es = e1 @ e2 @ e3 @ e4 @ e5"
  by (auto split: sum.splits)

text \<open>What each check has found when it returns.\<close>

lemma check_roll_no_Inr:
  assumes "check_roll_no cfg d = Inr es"
  shows "\<exists>v. d ''roll_no'' = Some v \<and>
             es = (case py_int v of None \<Rightarrow> [RollNumberNotInteger]
                   | Some r \<Rightarrow> if validate_roll_number cfg r then [] else [RollNumberOutOfRange r])"
  using assms by (auto simp: check_roll_no_def getitem_def split: option.splits)

lemma check_year_Inr:
  assumes "check_year cfg d = Inr es"
  shows "\<exists>v. d ''year'' = Some v \<and>
             es = (case py_int v of None \<Rightarrow> [YearNotInteger]
                   | Some y \<Rightarrow> if validate_year cfg y then [] else [YearNotValid y])"
  using assms by (auto simp: check_year_def getitem_def split: option.splits)

lemma check_blank_Inr:
  assumes "check_blank d k m = Inr es"
  shows "\<exists>s. d k = Some (PStr s) \<and> es = (if strip s = [] then [m] else [])"
proof -
  from assms obtain v where v: "d k = Some v" and
    r: "(case strip_is_empty v of Inl e \<Rightarrow> Inl e | Inr b \<Rightarrow> Inr (if b then [m] else [])) = Inr es"
    by (auto simp: check_blank_def getitem_def split: option.splits)
  then show ?thesis by (cases v) auto
qed

lemma check_email_Inr:
  assumes "check_email d = Inr es"
  shows "es = (if \<exists>e. d ''email'' = Some (PStr e) \<and> e \<noteq> [] \<and> \<not> validate_email e
               then [InvalidEmailFormat] else [])"
  using assms
  by (auto simp: check_email_def split: option.splits if_splits pyval.splits)

lemma check_phone_Inr:
  assumes "check_phone d = Inr es"
  shows "es = (if \<exists>p. d ''phone'' = Some (PStr p) \<and> p \<noteq> [] \<and> \<not> validate_phone p
               then [InvalidPhoneFormat] else [])"
  using assms
  by (auto simp: check_phone_def split: option.splits if_splits pyval.splits)

text \<open>
  Claim C8, amended. When \<open>validate_student\<close> returns: if a required field is missing
  (absent or falsy), the result is invalid and lists exactly the missing required fields;
  otherwise it lists, in order, everything the checks of roll number, year, name, email
  and phone report, and is valid exactly when that list is empty. In that case every violation
  is listed and nothing else is: the roll number (the year) is reported as not an integer
  exactly when \<^verbatim>\<open>int\<close> fails on it and as out of range (not valid) exactly when its integer
  value is; the name is reported exactly when it is blank, the email and the phone exactly when
  they are non-empty strings that their validators refuse.
\<close>

theorem validate_student_reports:
  assumes "validate_student cfg d = Inr (ok, errs)"
  shows "if missing_fields (required_student_fields cfg) d \<noteq> []
         then errs = missing_fields (required_student_fields cfg) d \<and> \<not> ok
         else (\<exists>e1 e2 e3 e4 e5.
                check_roll_no cfg d = Inr e1 \<and> check_year cfg d = Inr e2 \<and>
                check_blank d ''name'' StudentNameEmpty = Inr e3 \<and>
                check_email d = Inr e4 \<and> check_phone d = Inr e5 \<and>
                errs = e1 @ e2 @ e3 @ e4 @ e5 \<and> ok = (errs = [])) \<and>
              (\<exists>v. d ''roll_no'' = Some v \<and>
                   (RollNumberNotInteger \<in> set errs) = (py_int v = None) \<and>
                   (\<forall>r. (RollNumberOutOfRange r \<in> set errs) =
                          (py_int v = Some r \<and> \<not> validate_roll_number cfg r))) \<and>
              (\<exists>v. d ''year'' = Some v \<and>
                   (YearNotInteger \<in> set errs) = (py_int v = None) \<and>
                   (\<forall>y. (YearNotValid y \<in> set errs) =
                          (py_int v = Some y \<and> \<not> validate_year cfg y))) \<and>
              (\<exists>s. d ''name'' = Some (PStr s) \<and>
                   (StudentNameEmpty \<in> set errs) = (strip s = [])) \<and>
              (InvalidEmailFormat \<in> set errs) =
                 (\<exists>e. d ''email'' = Some (PStr e) \<and> e \<noteq> [] \<and> \<not> validate_email e) \<and>
              (InvalidPhoneFormat \<in> set errs) =
                 (\<exists>p. d ''phone'' = Some (PStr p) \<and> p \<noteq> [] \<and> \<not> validate_phone p)"
proof (cases "missing_fields (required_student_fields cfg) d \<noteq> []")
  case True
  with assms show ?thesis by (auto simp: validate_student_def Let_def)
next
  case False
  with assms obtain es where
    s: "seq_checks [check_roll_no cfg d, check_year cfg d, check_blank d ''name'' StudentNameEmpty,
                    check_email d, check_phone d] = Inr es"
    and r: "errs = es" "ok = (es = [])"
    by (auto simp: validate_student_def Let_def split: sum.splits)
  from seq_checks_five [OF s] obtain e1 e2 e3 e4 e5 where
    c: "check_roll_no cfg d = Inr e1" "check_year cfg d = Inr e2"
       "check_blank d ''name'' StudentNameEmpty = Inr e3"
       "check_email d = Inr e4" "check_phone d = Inr e5"
    and es: "es = e1 @ e2 @ e3 @ e4 @ e5"
    by blast
  from check_roll_no_Inr [OF c(1)] obtain v1 where v1: "d ''roll_no'' = Some v1"
    and e1: "e1 = (case py_int v1 of None \<Rightarrow> [RollNumberNotInteger]
                   | Some r \<Rightarrow> if validate_roll_number cfg r then [] else [RollNumberOutOfRange r])"
    by blast
  from check_year_Inr [OF c(2)] obtain v2 where v2: "d ''year'' = Some v2"
    and e2: "e2 = (case py_int v2 of None \<Rightarrow> [YearNotInteger]
                   | Some y \<Rightarrow> if validate_year cfg y then [] else [YearNotValid y])"
    by blast
  from check_blank_Inr [OF c(3)] obtain s3 where v3: "d ''name'' = Some (PStr s3)"
    and e3: "e3 = (if strip s3 = [] then [StudentNameEmpty] else [])"
    by blast
  note e4 = check_email_Inr [OF c(4)]
  note e5 = check_phone_Inr [OF c(5)]
  have m1: "(RollNumberNotInteger \<in> set errs) = (py_int v1 = None)"
    "\<And>r. (RollNumberOutOfRange r \<in> set errs) = (py_int v1 = Some r \<and> \<not> validate_roll_number cfg r)"
    unfolding r(1) es e1 e2 e3 e4 e5 by (auto split: option.splits)
  have m2: "(YearNotInteger \<in> set errs) = (py_int v2 = None)"
    "\<And>y. (YearNotValid y \<in> set errs) = (py_int v2 = Some y \<and> \<not> validate_year cfg y)"
    unfolding r(1) es e1 e2 e3 e4 e5 by (auto split: option.splits)
  have m3: "(StudentNameEmpty \<in> set errs) = (strip s3 = [])"
    unfolding r(1) es e1 e2 e3 e4 e5 by (auto split: option.splits)
  have m4: "(InvalidEmailFormat \<in> set errs) =
              (\<exists>e. d ''email'' = Some (PStr e) \<and> e \<noteq> [] \<and> \<not> validate_email e)"
    unfolding r(1) es e1 e2 e3 e4 e5 by (auto split: option.splits)
  have m5: "(InvalidPhoneFormat \<in> set errs) =
              (\<exists>p. d ''phone'' = Some (PStr p) \<and> p \<noteq> [] \<and> \<not> validate_phone p)"
    unfolding r(1) es e1 e2 e3 e4 e5 by (auto split: option.splits)
  have old: "\<exists>e1 e2 e3 e4 e5.
                check_roll_no cfg d = Inr e1 \<and> check_year cfg d = Inr e2 \<and>
                check_blank d ''name'' StudentNameEmpty = Inr e3 \<and>
                check_email d = Inr e4 \<and> check_phone d = Inr e5 \<and>
                errs = e1 @ e2 @ e3 @ e4 @ e5 \<and> ok = (errs = [])"
    using c es r by blast
  from False old v1 v2 v3 m1 m2 m3 m4 m5 show ?thesis
    by (simp only: if_False simp_thms) blast
qed

text \<open>
  A record with five violations gets all five; a record whose roll number and year carry the
  separators 0x1C and 0x1F, which \<^verbatim>\<open>str.strip\<close> removes and \<^verbatim>\<open>int\<close> refuses, gets both reported.
\<close>

theorem validate_student_reports_witness:
  "validate_student Config record_with_five_errors =
     Inr (False, [RollNumberOutOfRange 12345, YearNotValid 5, StudentNameEmpty,
                  InvalidEmailFormat, InvalidPhoneFormat]) \<and>
   missing_fields (required_student_fields Config) record_with_five_errors = [] \<and>
   (\<exists>v. record_with_five_errors ''roll_no'' = Some v \<and> py_int v = Some 12345 \<and>
        \<not> validate_roll_number Config 12345) \<and>
   (\<exists>v. record_with_five_errors ''year'' = Some v \<and> py_int v = Some 5 \<and>
        \<not> validate_year Config 5) \<and>
   (\<exists>s. record_with_five_errors ''name'' = Some (PStr s) \<and> strip s = []) \<and>
   (\<exists>e. record_with_five_errors ''email'' = Some (PStr e) \<and> e \<noteq> [] \<and> \<not> validate_email e) \<and>
   (\<exists>p. record_with_five_errors ''phone'' = Some (PStr p) \<and> p \<noteq> [] \<and> \<not> validate_phone p) \<and>
   validate_student Config record_with_separators =
     Inr (False, [RollNumberNotInteger, YearNotInteger])"
proof -
  let ?L = "[RollNumberOutOfRange 12345, YearNotValid 5, StudentNameEmpty,
             InvalidEmailFormat, InvalidPhoneFormat]"
  have h: "validate_student Config record_with_five_errors = Inr (False, ?L)"
    by code_simp
  have m: "missing_fields (required_student_fields Config) record_with_five_errors = []"
    by code_simp
  have s: "validate_student Config record_with_separators =
             Inr (False, [RollNumberNotInteger, YearNotInteger])"
    by code_simp
  from validate_student_reports [OF h] m
  have r: "\<exists>v. record_with_five_errors ''roll_no'' = Some v \<and>
               (\<forall>r. (RollNumberOutOfRange r \<in> set ?L) =
                      (py_int v = Some r \<and> \<not> validate_roll_number Config r))"
    and y: "\<exists>v. record_with_five_errors ''year'' = Some v \<and>
               (\<forall>y. (YearNotValid y \<in> set ?L) = (py_int v = Some y \<and> \<not> validate_year Config y))"
    and n: "\<exists>s. record_with_five_errors ''name'' = Some (PStr s) \<and>
               (StudentNameEmpty \<in> set ?L) = (strip s = [])"
    and e: "(InvalidEmailFormat \<in> set ?L) =
              (\<exists>e. record_with_five_errors ''email'' = Some (PStr e) \<and> e \<noteq> [] \<and> \<not> validate_email e)"
    and p: "(InvalidPhoneFormat \<in> set ?L) =
              (\<exists>p. record_with_five_errors ''phone'' = Some (PStr p) \<and> p \<noteq> [] \<and> \<not> validate_phone p)"
    by (simp_all only: if_False simp_thms) blast+
  have in_r: "RollNumberOutOfRange 12345 \<in> set ?L" and in_y: "YearNotValid 5 \<in> set ?L"
    and in_n: "StudentNameEmpty \<in> set ?L" and in_e: "InvalidEmailFormat \<in> set ?L"
    and in_p: "InvalidPhoneFormat \<in> set ?L"
    by simp_all
  from r in_r have r': "\<exists>v. record_with_five_errors ''roll_no'' = Some v \<and> py_int v = Some 12345 \<and>
        \<not> validate_roll_number Config 12345" by blast
  from y in_y have y': "\<exists>v. record_with_five_errors ''year'' = Some v \<and> py_int v = Some 5 \<and>
        \<not> validate_year Config 5" by blast
  from n in_n have n': "\<exists>s. record_with_five_errors ''name'' = Some (PStr s) \<and> strip s = []" by blast
  from e in_e have e': "\<exists>e. record_with_five_errors ''email'' = Some (PStr e) \<and> e \<noteq> [] \<and> \<not> validate_email e"
    by blast
  from p in_p have p': "\<exists>p. record_with_five_errors ''phone'' = Some (PStr p) \<and> p \<noteq> [] \<and> \<not> validate_phone p"
    by blast
  show ?thesis
    by (intro conjI h m r' y' n' e' p' s)
qed

subsection \<open>Mentors that are not available are left alone\<close>

lemma same_outside_refl: "same_outside A ms ms"
  by (simp add: same_outside_def)

lemma same_outside_trans:
  "same_outside A ms ms' \<Longrightarrow> same_outside A ms' ms'' \<Longrightarrow> same_outside A ms ms''"
  by (simp add: same_outside_def)

lemma same_outside_extend:
  assumes "i \<in> A"
  shows "same_outside A ms (extend_assigned i rolls ms)"
  unfolding same_outside_def extend_assigned_def
proof (intro conjI allI impI)
  show "length (ms[i := (ms ! i)\<lparr>assigned_students := assigned_students (ms ! i) @ rolls\<rparr>]) = length ms"
    by simp
next
  fix j
  assume "j \<notin> A"
  with assms have "i \<noteq> j" by blast
  then show "ms[i := (ms ! i)\<lparr>assigned_students := assigned_students (ms ! i) @ rolls\<rparr>] ! j = ms ! j"
    by simp
qed

lemma set_available_positions:
  "set (available_positions ms) = {i. i < length ms \<and> availability (ms ! i)}"
  by (auto simp: available_positions_def)

lemma same_outside_reset:
  "same_outside (set (available_positions ms)) ms (reset_available ms)"
  by (auto simp: same_outside_def reset_available_def set_available_positions)

lemma process_batch_frame:
  assumes "process_batch cfg av b st = Inr st'"
  shows "same_outside (set av) (ments st) (ments st')"
proof (cases "current_mentor_index st \<ge> length av \<and> \<not> wrap_around_mentors cfg")
  case True
  with assms show ?thesis
    by (auto simp: process_batch_def Let_def same_outside_refl)
next
  case False
  with assms show ?thesis
    by (auto simp: process_batch_def Let_def split: if_splits sum.splits
             intro!: same_outside_extend)
qed

lemma process_batches_frame:
  "process_batches cfg av bs st = (e, st') \<Longrightarrow> same_outside (set av) (ments st) (ments st')"
proof (induction bs arbitrary: st)
  case Nil
  then show ?case by (simp add: same_outside_refl)
next
  case (Cons b bs)
  show ?case
  proof (cases "process_batch cfg av b st")
    case (Inl err)
    with Cons.prems show ?thesis by (simp add: same_outside_refl)
  next
    case (Inr st1)
    with Cons.prems have "process_batches cfg av bs st1 = (e, st')" by simp
    from Cons.IH [OF this] process_batch_frame [OF Inr] show ?thesis
      by (rule same_outside_trans [rotated])
  qed
qed

lemma handle_remainder_frame:
  assumes "handle_remainder cfg av k r st = Inr st'"
  shows "same_outside (set av) (ments st) (ments st')"
  using assms
  by (auto simp: handle_remainder_def fold_remainder_def Let_def same_outside_refl find_Some_iff
           split: if_splits sum.splits option.splits
           intro!: same_outside_extend)

lemma assign_mentors_cases:
  assumes "assign_students_to_mentors cfg students0 mentors = (r, ss', ms')"
  shows "ms' = mentors \<or> ms' = reset_available mentors \<or>
         (\<exists>e st. process_batches cfg (available_positions mentors)
                   [0..<complete_batches_of cfg students0] (initial_state cfg students0 mentors) = (e, st) \<and>
                 (ms' = ments st \<or>
                  (\<exists>st2. handle_remainder cfg (available_positions mentors)
                            (complete_batches_of cfg students0) (remainder_of cfg students0) st = Inr st2 \<and>
                         ms' = ments st2)))"
  using assms
  unfolding assign_students_to_mentors_def processing_order_def [symmetric]
  by (auto simp: Let_def complete_batches_of_def remainder_of_def initial_state_def processing_order_def
           split: sum.splits prod.splits option.splits if_splits)

text \<open>
  Claim C10. Whatever the call does (return or raise), the mentor list keeps its length and
  every mentor whose \<open>availability\<close> is false is, field by field, exactly as before the
  call; in particular its \<open>assigned_students\<close> are not reset.
\<close>

theorem unavailable_mentors_untouched:
  assumes "assign_students_to_mentors cfg students mentors = (r, ss', ms')"
  shows "length ms' = length mentors \<and>
         (\<forall>i < length mentors. \<not> availability (mentors ! i) \<longrightarrow> ms' ! i = mentors ! i)"
proof -
  let ?A = "set (available_positions mentors)"
  have reset: "same_outside ?A mentors (reset_available mentors)"
    by (rule same_outside_reset)
  have "same_outside ?A mentors ms'"
    using assign_mentors_cases [OF assms]
  proof (elim disjE exE conjE)
    assume "ms' = mentors"
    then show ?thesis by (simp add: same_outside_refl)
  next
    assume "ms' = reset_available mentors"
    with reset show ?thesis by simp
  next
    fix e st
    assume p: "process_batches cfg (available_positions mentors)
                 [0..<complete_batches_of cfg students] (initial_state cfg students mentors) = (e, st)"
      and "ms' = ments st"
    with process_batches_frame [OF p] reset show ?thesis
      by (auto simp: initial_state_def intro: same_outside_trans)
  next
    fix e st st2
    assume p: "process_batches cfg (available_positions mentors)
                 [0..<complete_batches_of cfg students] (initial_state cfg students mentors) = (e, st)"
      and h: "handle_remainder cfg (available_positions mentors)
                (complete_batches_of cfg students) (remainder_of cfg students) st = Inr st2"
      and "ms' = ments st2"
    with process_batches_frame [OF p] handle_remainder_frame [OF h] reset show ?thesis
      by (auto simp: initial_state_def intro: same_outside_trans)
  qed
  then show ?thesis
    by (auto simp: same_outside_def set_available_positions)
qed

theorem unavailable_mentors_untouched_witness:
  "\<not> isl (fst (assign_students_to_mentors Config (map new_student [1..30])
                   [retired_mentor, new_mentor ''FAC001'' 30])) \<and>
   \<not> availability ([retired_mentor, new_mentor ''FAC001'' 30] ! 0) \<and>
   assigned_students retired_mentor = [7, 8] \<and>
   snd (snd (assign_students_to_mentors Config (map new_student [1..30])
               [retired_mentor, new_mentor ''FAC001'' 30])) ! 0 = retired_mentor"
proof -
  let ?run = "assign_students_to_mentors Config (map new_student [1..30])
                [retired_mentor, new_mentor ''FAC001'' 30]"
  have ok: "\<not> isl (fst ?run)"
    by code_simp
  have run: "?run = (fst ?run, fst (snd ?run), snd (snd ?run))"
    by simp
  have un: "\<not> availability ([retired_mentor, new_mentor ''FAC001'' 30] ! 0)"
    by (simp add: retired_mentor_def new_mentor_def)
  from unavailable_mentors_untouched [OF run] un
  have "snd (snd ?run) ! 0 = [retired_mentor, new_mentor ''FAC001'' 30] ! 0"
    by simp
  with ok un show ?thesis
    by (simp add: retired_mentor_def new_mentor_def)
qed

subsection \<open>The invariants hold throughout a run\<close>

lemma process_batches_snoc:
  "process_batches cfg av (bs @ [b]) st =
     (case process_batches cfg av bs st of
        (Some e, s) \<Rightarrow> (Some e, s)
      | (None, s) \<Rightarrow> (case process_batch cfg av b s of
                        Inl e \<Rightarrow> (Some e, s)
                      | Inr s' \<Rightarrow> (None, s')))"
  by (induction bs arbitrary: st) (auto split: sum.splits)

lemma process_batches_upto:
  assumes init: "P 0 st0"
    and step: "\<And>b st. b < k \<Longrightarrow> P b st \<Longrightarrow> \<exists>st'. process_batch cfg av b st = Inr st' \<and> P (Suc b) st'"
  shows "\<exists>st. process_batches cfg av [0..<k] st0 = (None, st) \<and> P k st"
  using step
proof (induction k)
  case 0
  with init show ?case by simp
next
  case (Suc k)
  have "\<exists>st. process_batches cfg av [0..<k] st0 = (None, st) \<and> P k st"
  proof (rule Suc.IH)
    fix b st
    assume "b < k" "P b st"
    then show "\<exists>st'. process_batch cfg av b st = Inr st' \<and> P (Suc b) st'"
      using Suc.prems [of b st] by simp
  qed
  then obtain st where st: "process_batches cfg av [0..<k] st0 = (None, st)" "P k st"
    by blast
  from Suc.prems [of k st] st obtain st' where "process_batch cfg av k st = Inr st'" "P (Suc k) st'"
    by auto
  with st show ?case
    by (simp add: process_batches_snoc)
qed

lemma mentor_issues_faculty_id:
  assumes "mentor_issues cfg m = []"
  shows "strip (faculty_id m) \<noteq> []"
proof -
  from assms have "check_faculty_id (mentor_to_dict m) = Inr []"
    by (auto simp: mentor_issues_def validate_mentor_def Let_def
             split: sum.splits if_splits prod.splits)
  then show ?thesis
    by (auto simp: check_faculty_id_def getitem_def mentor_to_dict_def validate_faculty_id_def
             split: if_splits)
qed

lemma validation_facts:
  assumes "validate_data_consistency cfg students mentors = Inr (True, issues)"
  shows "students \<noteq> []" "distinct (map roll_no students)" "distinct (map faculty_id mentors)"
    "\<forall>m\<in>set mentors. strip (faculty_id m) \<noteq> []"
    "int (length students) \<le> total_capacity mentors"
proof -
  from assms obtain fi where
    rec: "concat (map (student_issues cfg) students) = []" "concat (map (mentor_issues cfg) mentors) = []"
    and fe: "validate_assignment_feasibility cfg students mentors = Inr (fi, [])"
    by (auto simp: validate_data_consistency_def Let_def split: sum.splits prod.splits)
  from fe show "students \<noteq> []"
    by (auto simp: validate_assignment_feasibility_def Let_def split: if_splits)
  from fe have "length (remdups (map roll_no students)) = length (map roll_no students)"
    by (auto simp: validate_assignment_feasibility_def Let_def split: if_splits)
  then show "distinct (map roll_no students)"
    by (metis length_remdups_eq remdups_id_iff_distinct)
  from fe have "length (remdups (map faculty_id mentors)) = length (map faculty_id mentors)"
    by (auto simp: validate_assignment_feasibility_def Let_def split: if_splits)
  then show "distinct (map faculty_id mentors)"
    by (metis length_remdups_eq remdups_id_iff_distinct)
  from rec(2) show "\<forall>m\<in>set mentors. strip (faculty_id m) \<noteq> []"
    using mentor_issues_faculty_id by auto
  from fe show "int (length students) \<le> total_capacity mentors"
    by (auto simp: validate_assignment_feasibility_def Let_def split: if_splits)
qed

lemma rolls_of_snoc: "rolls_of (asgs @ [a]) = rolls_of asgs @ student_roll_numbers a"
  by (simp add: rolls_of_def)

lemma map_roll_slice: "map roll_no (slice xs lo hi) = slice (map roll_no xs) lo hi"
  by (simp add: slice_def take_map drop_map)

lemma take_slice: "lo \<le> hi \<Longrightarrow> take hi xs = take lo xs @ slice xs lo hi"
  unfolding slice_def using take_add [of lo "hi - lo" xs] by simp

lemma slice_to_end: "slice xs lo (length xs) = drop lo xs"
  by (simp add: slice_def)

lemma roll_no_set_assigned: "map roll_no (map (set_assigned_mentor fid) xs) = map roll_no xs"
  by (simp add: set_assigned_mentor_def)

lemma map_roll_assign_range:
  assumes "lo \<le> hi"
  shows "map roll_no (assign_range fid lo hi xs) = map roll_no xs"
proof -
  have "map roll_no (assign_range fid lo hi xs) =
          map roll_no (take lo xs @ slice xs lo hi) @ map roll_no (drop hi xs)"
    using roll_no_set_assigned [of fid "slice xs lo hi"] by (simp add: assign_range_def)
  also have "take lo xs @ slice xs lo hi = take hi xs"
    using take_slice [OF assms, of xs] by simp
  finally show ?thesis
    by (simp flip: map_append)
qed

lemma cover_assign:
  assumes inv: "cover S lo st"
    and dist: "distinct (map roll_no S)"
    and le: "lo \<le> hi"
    and st': "rolls_of (assignments_made st') =
                rolls_of (assignments_made st) @ map roll_no (slice (studs st) lo hi)"
      "unassigned st' = unassigned st"
      "studs st' = assign_range fid lo hi (studs st)"
  shows "cover S hi st'"
proof -
  let ?R = "map roll_no S"
  from inv have R: "map roll_no (studs st) = ?R" by (simp add: cover_def)
  have ra: "map roll_no (slice (studs st) lo hi) = slice ?R lo hi"
    by (simp add: map_roll_slice R)
  have split: "take hi ?R = take lo ?R @ slice ?R lo hi"
    by (rule take_slice [OF le])
  from dist have "distinct (take hi ?R)" by simp
  with split have d: "distinct (slice ?R lo hi)" "set (take lo ?R) \<inter> set (slice ?R lo hi) = {}"
    by auto
  from inv have i: "distinct (rolls_of (assignments_made st) @ map roll_no (unassigned st))"
    "set (rolls_of (assignments_made st) @ map roll_no (unassigned st)) = set (take lo ?R)"
    by (simp_all add: cover_def take_map)
  have "map roll_no (studs st') = ?R"
    by (simp add: st' map_roll_assign_range [OF le] R)
  moreover have "distinct (rolls_of (assignments_made st') @ map roll_no (unassigned st'))"
    using i d by (auto simp: st' ra)
  moreover have "set (rolls_of (assignments_made st') @ map roll_no (unassigned st')) = set (take hi ?R)"
    using i by (auto simp: st' ra split)
  ultimately show ?thesis
    by (simp add: cover_def take_map)
qed

lemma cover_unassign:
  assumes inv: "cover S lo st"
    and dist: "distinct (map roll_no S)"
    and le: "lo \<le> hi"
    and st': "assignments_made st' = assignments_made st"
      "unassigned st' = unassigned st @ slice (studs st) lo hi"
      "studs st' = studs st"
  shows "cover S hi st'"
proof -
  let ?R = "map roll_no S"
  from inv have R: "map roll_no (studs st) = ?R" by (simp add: cover_def)
  have split: "take hi ?R = take lo ?R @ slice ?R lo hi"
    by (rule take_slice [OF le])
  from dist have "distinct (take hi ?R)" by simp
  with split have d: "distinct (slice ?R lo hi)" "set (take lo ?R) \<inter> set (slice ?R lo hi) = {}"
    by auto
  from inv have i: "distinct (rolls_of (assignments_made st) @ map roll_no (unassigned st))"
    "set (rolls_of (assignments_made st) @ map roll_no (unassigned st)) = set (take lo ?R)"
    by (simp_all add: cover_def take_map)
  have "map roll_no (studs st') = ?R"
    by (simp add: st' R)
  moreover have "distinct (rolls_of (assignments_made st') @ map roll_no (unassigned st'))"
    using i d by (auto simp: st' map_roll_slice R)
  moreover have "set (rolls_of (assignments_made st') @ map roll_no (unassigned st')) = set (take hi ?R)"
    using i by (auto simp: st' map_roll_slice R split)
  ultimately show ?thesis
    by (simp add: cover_def take_map)
qed

lemma extends_by_snoc:
  "mentor_id a = fid \<Longrightarrow> student_roll_numbers a = rolls \<Longrightarrow> extends_by fid rolls asgs (asgs @ [a])"
  by (auto simp: extends_by_def)

lemma extends_by_fold:
  assumes "asgs \<noteq> []" "mentor_id (last asgs) = fid"
  shows "extends_by fid rolls asgs
           (butlast asgs @ [(last asgs)\<lparr>student_roll_numbers := student_roll_numbers (last asgs) @ rolls,
                                       assignment_notes := n\<rparr>])"
proof -
  from assms(1) have "last asgs \<in> set asgs" by simp
  with assms(2) show ?thesis
    by (auto simp: extends_by_def dest: in_set_butlastD)
qed

lemma rolls_of_fold:
  assumes "asgs \<noteq> []"
  shows "rolls_of (butlast asgs @ [(last asgs)\<lparr>student_roll_numbers := student_roll_numbers (last asgs) @ rolls,
                                       assignment_notes := n\<rparr>]) = rolls_of asgs @ rolls"
proof -
  have "rolls_of asgs = rolls_of (butlast asgs @ [last asgs])"
    using assms by simp
  then show ?thesis
    by (simp add: rolls_of_def)
qed

lemma length_extend: "length (extend_assigned i rolls ms) = length ms"
  by (simp add: extend_assigned_def)

lemma nth_extend:
  "j < length ms \<Longrightarrow> extend_assigned i rolls ms ! j =
     (if i = j then (ms ! j)\<lparr>assigned_students := assigned_students (ms ! j) @ rolls\<rparr> else ms ! j)"
  by (auto simp: extend_assigned_def)

lemma faculty_id_extend: "map faculty_id (extend_assigned i rolls ms) = map faculty_id ms"
  by (rule nth_equalityI) (simp_all add: length_extend nth_extend)

lemma availability_extend: "map availability (extend_assigned i rolls ms) = map availability ms"
  by (rule nth_equalityI) (simp_all add: length_extend nth_extend)

lemma assigned_extend_mono:
  "set (assigned_students (ms ! i)) \<subseteq> set (assigned_students (extend_assigned j rolls ms ! i))"
proof (cases "i < length ms")
  case True
  then show ?thesis by (simp add: nth_extend)
next
  case False
  then show ?thesis by (cases "i = j") (simp_all add: extend_assigned_def list_update_beyond)
qed

lemma assigned_extend_same:
  "i < length ms \<Longrightarrow> assigned_students (extend_assigned i rolls ms ! i) = assigned_students (ms ! i) @ rolls"
  by (simp add: extend_assigned_def)

lemma mentors_agree_assign:
  assumes inv: "mentors_agree av M0 st"
    and fids: "distinct (map faculty_id M0)"
    and av: "\<forall>i\<in>set av. i < length M0"
    and mi: "mi \<in> set av"
    and ext: "extends_by (faculty_id (M0 ! mi)) rolls (assignments_made st) (assignments_made st')"
    and st': "ments st' = extend_assigned mi rolls (ments st)"
  shows "mentors_agree av M0 st'"
proof -
  from inv have f: "map faculty_id (ments st) = map faculty_id M0"
    and old: "\<And>a. a \<in> set (assignments_made st) \<Longrightarrow> \<exists>i\<in>set av. faculty_id (M0 ! i) = mentor_id a \<and>
          set (student_roll_numbers a) \<subseteq> set (assigned_students (ments st ! i))"
    by (auto simp: mentors_agree_def)
  from f have len: "length (ments st) = length M0"
    by (rule map_eq_imp_length_eq)
  from mi av have mi_len: "mi < length M0" by blast
  have unique: "i = mi" if "i \<in> set av" "faculty_id (M0 ! i) = faculty_id (M0 ! mi)" for i
  proof -
    from that(1) av have "i < length M0" by blast
    with that(2) mi_len fids show ?thesis
      by (metis length_map nth_eq_iff_index_eq nth_map)
  qed
  have new: "\<exists>i\<in>set av. faculty_id (M0 ! i) = mentor_id a \<and>
          set (student_roll_numbers a) \<subseteq> set (assigned_students (ments st' ! i))"
    if a: "a \<in> set (assignments_made st')" for a
  proof (cases "a \<in> set (assignments_made st)")
    case True
    from old [OF True] obtain i where i: "i \<in> set av" "faculty_id (M0 ! i) = mentor_id a"
      "set (student_roll_numbers a) \<subseteq> set (assigned_students (ments st ! i))"
      by blast
    with assigned_extend_mono [of "ments st" i mi rolls] show ?thesis
      unfolding st' by blast
  next
    case False
    with ext a have m: "mentor_id a = faculty_id (M0 ! mi)"
      and r: "\<And>r. r \<in> set (student_roll_numbers a) \<Longrightarrow> r \<in> set rolls \<or>
            (\<exists>a0\<in>set (assignments_made st). mentor_id a0 = faculty_id (M0 ! mi) \<and>
                r \<in> set (student_roll_numbers a0))"
      by (auto simp: extends_by_def)
    have "r \<in> set (assigned_students (ments st' ! mi))" if "r \<in> set (student_roll_numbers a)" for r
    proof -
      from r [OF that] show ?thesis
      proof
        assume "r \<in> set rolls"
        then show ?thesis
          by (simp add: st' assigned_extend_same len mi_len)
      next
        assume "\<exists>a0\<in>set (assignments_made st). mentor_id a0 = faculty_id (M0 ! mi) \<and>
                  r \<in> set (student_roll_numbers a0)"
        then obtain a0 where a0: "a0 \<in> set (assignments_made st)"
          "mentor_id a0 = faculty_id (M0 ! mi)" "r \<in> set (student_roll_numbers a0)"
          by blast
        from old [OF a0(1)] obtain i where i: "i \<in> set av" "faculty_id (M0 ! i) = mentor_id a0"
          "set (student_roll_numbers a0) \<subseteq> set (assigned_students (ments st ! i))"
          by blast
        from unique [OF i(1)] i(2) a0(2) have "i = mi" by simp
        with i(3) a0(3) have "r \<in> set (assigned_students (ments st ! mi))" by blast
        then show ?thesis
          by (simp add: st' assigned_extend_same len mi_len)
      qed
    qed
    with m mi show ?thesis by auto
  qed
  show ?thesis
    unfolding mentors_agree_def
  proof (intro conjI ballI)
    show "map faculty_id (ments st') = map faculty_id M0"
      by (simp add: st' faculty_id_extend f)
    show "map availability (ments st') = map availability M0"
      using inv by (simp add: st' availability_extend mentors_agree_def)
  next
    fix a assume "a \<in> set (assignments_made st')"
    then show "\<exists>i\<in>set av. faculty_id (M0 ! i) = mentor_id a \<and>
          set (student_roll_numbers a) \<subseteq> set (assigned_students (ments st' ! i))"
      by (rule new)
  qed
qed

lemma students_agree_assign:
  assumes inv: "students_agree st"
    and cov: "cover S lo st"
    and dist: "distinct (map roll_no S)"
    and le: "lo \<le> hi"
    and ext: "extends_by fid (map roll_no (slice (studs st) lo hi))
                (assignments_made st) (assignments_made st')"
    and st': "studs st' = assign_range fid lo hi (studs st)"
  shows "students_agree st'"
proof -
  let ?R = "map roll_no S"
  let ?xs = "studs st"
  from cov have R: "map roll_no ?xs = ?R" by (simp add: cover_def)
  have "take lo ?R @ slice ?R lo hi @ drop hi ?R = (take lo ?R @ slice ?R lo hi) @ drop hi ?R"
    by simp
  also have "\<dots> = take hi ?R @ drop hi ?R"
    by (simp only: take_slice [OF le, symmetric])
  also have "\<dots> = ?R"
    by (rule append_take_drop_id)
  finally have parts: "take lo ?R @ slice ?R lo hi @ drop hi ?R = ?R" .
  have "distinct (take lo ?R @ slice ?R lo hi @ drop hi ?R)"
    unfolding parts by (rule dist)
  then have disj: "set (take lo ?R) \<inter> set (slice ?R lo hi) = {}"
    "set (slice ?R lo hi) \<inter> set (drop hi ?R) = {}"
    by auto
  have old_rolls: "set (student_roll_numbers a) \<subseteq> set (take lo ?R)"
    if "a \<in> set (assignments_made st)" for a
  proof -
    from that have "set (student_roll_numbers a) \<subseteq> set (rolls_of (assignments_made st))"
      by (auto simp: rolls_of_def)
    with cov show ?thesis
      by (auto simp: cover_def take_map)
  qed
  have old: "assigned_mentor_id s = Some (mentor_id a)"
    if "a \<in> set (assignments_made st)" "s \<in> set ?xs" "roll_no s \<in> set (student_roll_numbers a)" for a s
    using inv that by (auto simp: students_agree_def)
  have elems: "(s \<in> set ?xs \<and> roll_no s \<notin> set (slice ?R lo hi)) \<or>
               (roll_no s \<in> set (slice ?R lo hi) \<and> assigned_mentor_id s = Some fid)"
    if s: "s \<in> set (studs st')" for s
  proof -
    from s have "s \<in> set (take lo ?xs) \<or> s \<in> set_assigned_mentor fid ` set (slice ?xs lo hi) \<or>
                 s \<in> set (drop hi ?xs)"
      by (auto simp: st' assign_range_def)
    then show ?thesis
    proof (elim disjE)
      assume a: "s \<in> set (take lo ?xs)"
      then have "roll_no s \<in> set (take lo (map roll_no ?xs))" by (simp add: take_map)
      then have "roll_no s \<in> set (take lo ?R)" by (simp only: R)
      with disj(1) a show ?thesis by (auto dest: in_set_takeD)
    next
      assume "s \<in> set_assigned_mentor fid ` set (slice ?xs lo hi)"
      then obtain s0 where s0: "s0 \<in> set (slice ?xs lo hi)" "s = set_assigned_mentor fid s0"
        by blast
      from s0(1) have "roll_no s0 \<in> set (map roll_no (slice ?xs lo hi))" by simp
      then have "roll_no s0 \<in> set (slice ?R lo hi)" by (simp only: map_roll_slice R)
      with s0(2) show ?thesis by (simp add: set_assigned_mentor_def)
    next
      assume a: "s \<in> set (drop hi ?xs)"
      then have "roll_no s \<in> set (drop hi (map roll_no ?xs))" by (simp add: drop_map)
      then have "roll_no s \<in> set (drop hi ?R)" by (simp only: R)
      with disj(2) a show ?thesis by (auto dest: in_set_dropD)
    qed
  qed
  have "assigned_mentor_id s = Some (mentor_id a)"
    if a: "a \<in> set (assignments_made st')" and s: "s \<in> set (studs st')"
      and r: "roll_no s \<in> set (student_roll_numbers a)" for a s
  proof (cases "a \<in> set (assignments_made st)")
    case True
    from old_rolls [OF True] r have "roll_no s \<in> set (take lo ?R)" by blast
    with disj(1) have "roll_no s \<notin> set (slice ?R lo hi)" by blast
    with elems [OF s] have "s \<in> set ?xs" by blast
    with True r show ?thesis by (simp add: old)
  next
    case False
    with ext a have m: "mentor_id a = fid"
      and q: "\<And>r. r \<in> set (student_roll_numbers a) \<Longrightarrow> r \<in> set (slice ?R lo hi) \<or>
            (\<exists>a0\<in>set (assignments_made st). mentor_id a0 = fid \<and> r \<in> set (student_roll_numbers a0))"
      by (auto simp: extends_by_def map_roll_slice R)
    from elems [OF s] show ?thesis
    proof
      assume "roll_no s \<in> set (slice ?R lo hi) \<and> assigned_mentor_id s = Some fid"
      with m show ?thesis by simp
    next
      assume e: "s \<in> set ?xs \<and> roll_no s \<notin> set (slice ?R lo hi)"
      with q [OF r] obtain a0 where a0: "a0 \<in> set (assignments_made st)" "mentor_id a0 = fid"
        "roll_no s \<in> set (student_roll_numbers a0)"
        by blast
      from old [OF a0(1) _ a0(3)] e a0(2) m show ?thesis by simp
    qed
  qed
  then show ?thesis
    by (simp add: students_agree_def)
qed

lemma invariant_assign:
  assumes inv: "loop_invariant av S M0 lo st"
    and dist: "distinct (map roll_no S)"
    and fids: "distinct (map faculty_id M0)"
    and av: "\<forall>i\<in>set av. i < length M0"
    and le: "lo \<le> hi"
    and mi: "mi \<in> set av"
    and ext: "extends_by (faculty_id (M0 ! mi)) (map roll_no (slice (studs st) lo hi))
                (assignments_made st) (assignments_made st')"
    and ro: "rolls_of (assignments_made st') =
               rolls_of (assignments_made st) @ map roll_no (slice (studs st) lo hi)"
    and st': "unassigned st' = unassigned st"
      "studs st' = assign_range (faculty_id (M0 ! mi)) lo hi (studs st)"
      "ments st' = extend_assigned mi (map roll_no (slice (studs st) lo hi)) (ments st)"
  shows "loop_invariant av S M0 hi st'"
proof -
  from inv have c: "cover S lo st" and m: "mentors_agree av M0 st" and s: "students_agree st"
    by (simp_all add: loop_invariant_def)
  have "cover S hi st'"
    by (rule cover_assign [OF c dist le ro st'(1) st'(2)])
  moreover have "mentors_agree av M0 st'"
    by (rule mentors_agree_assign [OF m fids av mi ext st'(3)])
  moreover have "students_agree st'"
    by (rule students_agree_assign [OF s c dist le ext st'(2)])
  ultimately show ?thesis
    by (simp add: loop_invariant_def)
qed

lemma invariant_unassign:
  assumes inv: "loop_invariant av S M0 lo st"
    and dist: "distinct (map roll_no S)"
    and le: "lo \<le> hi"
    and st': "st' = st\<lparr>unassigned := unassigned st @ slice (studs st) lo hi\<rparr>"
  shows "loop_invariant av S M0 hi st'"
proof -
  from inv have c: "cover S lo st" and m: "mentors_agree av M0 st" and s: "students_agree st"
    by (simp_all add: loop_invariant_def)
  have "cover S hi st'"
    by (rule cover_unassign [OF c dist le]) (simp_all add: st')
  moreover from m have "mentors_agree av M0 st'"
    by (simp add: mentors_agree_def st')
  moreover from s have "students_agree st'"
    by (simp add: students_agree_def st')
  ultimately show ?thesis
    by (simp add: loop_invariant_def)
qed

lemma slice_nonempty: "lo < length xs \<Longrightarrow> lo < hi \<Longrightarrow> slice xs lo hi \<noteq> []"
  by (simp add: slice_def)

lemma invariant_lengths:
  assumes "loop_invariant av S M0 d st"
  shows "length (studs st) = length S" "length (ments st) = length M0"
    "\<And>i. i < length M0 \<Longrightarrow> faculty_id (ments st ! i) = faculty_id (M0 ! i)"
proof -
  from assms have r: "map roll_no (studs st) = map roll_no S"
    and f: "map faculty_id (ments st) = map faculty_id M0"
    by (simp_all add: loop_invariant_def cover_def mentors_agree_def)
  from r show "length (studs st) = length S" by (rule map_eq_imp_length_eq)
  from f show len: "length (ments st) = length M0" by (rule map_eq_imp_length_eq)
  fix i assume "i < length M0"
  with len f show "faculty_id (ments st ! i) = faculty_id (M0 ! i)"
    by (metis nth_map)
qed

lemma process_batch_step:
  assumes inv: "loop_invariant av S M0 (b * nat (BATCH_SIZE cfg)) st"
    and dist: "distinct (map roll_no S)"
    and fids: "distinct (map faculty_id M0)"
    and av: "\<forall>i\<in>set av. i < length M0"
    and avne: "av \<noteq> []"
    and ids: "\<forall>i\<in>set av. strip (faculty_id (M0 ! i)) \<noteq> []"
    and pos: "0 < BATCH_SIZE cfg"
    and lt: "b * nat (BATCH_SIZE cfg) < length S"
  shows "\<exists>st'. process_batch cfg av b st = Inr st' \<and>
               loop_invariant av S M0 (Suc b * nat (BATCH_SIZE cfg)) st'"
proof -
  define B where "B = nat (BATCH_SIZE cfg)"
  define lo where "lo = b * B"
  define hi where "hi = lo + B"
  from pos have Bpos: "0 < B" by (simp add: B_def)
  have hi: "Suc b * nat (BATCH_SIZE cfg) = hi" by (simp add: hi_def lo_def B_def)
  have le: "lo \<le> hi" by (simp add: hi_def)
  note inv' = inv [folded B_def lo_def]
  note len = invariant_lengths [OF inv']
  from lt have lo_lt: "lo < length (studs st)" by (simp add: len lo_def B_def)
  with Bpos have ne: "slice (studs st) lo hi \<noteq> []"
    by (intro slice_nonempty) (simp_all add: hi_def)
  show ?thesis
  proof (cases "current_mentor_index st \<ge> length av \<and> \<not> wrap_around_mentors cfg")
    case True
    then have "process_batch cfg av b st = Inr (st\<lparr>unassigned := unassigned st @ slice (studs st) lo hi\<rparr>)"
      by (simp add: process_batch_def Let_def lo_def hi_def B_def)
    moreover have "loop_invariant av S M0 hi (st\<lparr>unassigned := unassigned st @ slice (studs st) lo hi\<rparr>)"
      by (rule invariant_unassign [OF inv' dist le refl])
    ultimately show ?thesis unfolding hi by blast
  next
    case False
    define idx where "idx = (if current_mentor_index st \<ge> length av then 0 else current_mentor_index st)"
    define mi where "mi = av ! idx"
    define rolls where "rolls = map roll_no (slice (studs st) lo hi)"
    define a where "a = \<lparr> mentor_id = faculty_id (M0 ! mi), student_roll_numbers = rolls,
      batch_number = int b + 1, assignment_notes = Some (BatchNote (length (slice (studs st) lo hi))) \<rparr>"
    define st' where "st' = \<lparr> current_mentor_index = idx + 1,
      assignments_made = assignments_made st @ [a], unassigned = unassigned st,
      studs = assign_range (faculty_id (M0 ! mi)) lo hi (studs st),
      ments = extend_assigned mi rolls (ments st) \<rparr>"
    from avne have idx: "idx < length av" by (simp add: idx_def)
    then have mi: "mi \<in> set av" by (simp add: mi_def)
    with av have mi_len: "mi < length M0" by blast
    from len(3) [OF mi_len] have fid: "faculty_id (ments st ! mi) = faculty_id (M0 ! mi)" .
    from ids mi have blank: "strip (faculty_id (M0 ! mi)) \<noteq> []" by blast
    from ne have rne: "rolls \<noteq> []" by (simp add: rolls_def)
    have asg: "Assignment (faculty_id (M0 ! mi)) rolls (int b + 1)
                 (BatchNote (length (slice (studs st) lo hi))) = Inr a"
      using blank rne by (simp add: Assignment_def a_def)
    have "process_batch cfg av b st = Inr st'"
      using False idx asg fid
      unfolding process_batch_def Let_def B_def [symmetric] lo_def [symmetric] hi_def [symmetric]
        idx_def [symmetric] mi_def [symmetric] rolls_def [symmetric]
      by (auto simp: st'_def)
    moreover have "loop_invariant av S M0 hi st'"
    proof (rule invariant_assign [OF inv' dist fids av le mi])
      show "extends_by (faculty_id (M0 ! mi)) (map roll_no (slice (studs st) lo hi))
              (assignments_made st) (assignments_made st')"
        by (simp add: st'_def a_def rolls_def extends_by_snoc)
      show "rolls_of (assignments_made st') =
              rolls_of (assignments_made st) @ map roll_no (slice (studs st) lo hi)"
        by (simp add: st'_def a_def rolls_def rolls_of_snoc)
    qed (simp_all add: st'_def rolls_def)
    ultimately show ?thesis unfolding hi by blast
  qed
qed

lemma handle_remainder_step:
  assumes inv: "loop_invariant av S M0 (k * nat (BATCH_SIZE cfg)) st"
    and dist: "distinct (map roll_no S)"
    and fids: "distinct (map faculty_id M0)"
    and av: "\<forall>i\<in>set av. i < length M0"
    and ids: "\<forall>i\<in>set av. strip (faculty_id (M0 ! i)) \<noteq> []"
    and r: "r = int (length S) - int (k * nat (BATCH_SIZE cfg))"
    and le: "k * nat (BATCH_SIZE cfg) \<le> length S"
  shows "\<exists>st'. handle_remainder cfg av k r st = Inr st' \<and> loop_invariant av S M0 (length S) st'"
proof -
  define lo where "lo = k * nat (BATCH_SIZE cfg)"
  note inv' = inv [folded lo_def]
  note len = invariant_lengths [OF inv']
  from le have le': "lo \<le> length S" by (simp add: lo_def)
  have r': "r = int (length S) - int lo" by (simp only: r lo_def)
  have rem: "drop lo (studs st) = slice (studs st) lo (length S)"
    using slice_to_end [of "studs st" lo] by (simp add: len)
  define st_un where "st_un = st\<lparr>unassigned := unassigned st @ drop lo (studs st)\<rparr>"
  have un: "loop_invariant av S M0 (length S) st_un"
    by (rule invariant_unassign [OF inv' dist le']) (simp add: rem st_un_def)
  show ?thesis
  proof (cases "r > 0")
    case False
    with r' le' have "lo = length S" by linarith
    with inv' have "loop_invariant av S M0 (length S) st" by simp
    moreover from False have "handle_remainder cfg av k r st = Inr st"
      by (simp add: handle_remainder_def)
    ultimately show ?thesis by simp
  next
    case True
    with r' have lo_lt: "lo < length S" by linarith
    then have rne: "map roll_no (drop lo (studs st)) \<noteq> []" by (simp add: len)
    show ?thesis
    proof (cases "r \<le> remainder_threshold cfg")
      case thr: True
      show ?thesis
      proof (cases "assignments_made st = []")
        case True
        with \<open>r > 0\<close> thr have "handle_remainder cfg av k r st = Inr st_un"
          by (simp add: handle_remainder_def Let_def st_un_def lo_def)
        with un show ?thesis by simp
      next
        case False
        define la where "la = last (assignments_made st)"
        from False have la: "la \<in> set (assignments_made st)" by (simp add: la_def)
        from inv' la obtain i where i: "i \<in> set av" "faculty_id (M0 ! i) = mentor_id la"
          by (auto simp: loop_invariant_def mentors_agree_def)
        from i(1) av have "i < length M0" by blast
        from len(3) [OF this] i(2) have "faculty_id (ments st ! i) = mentor_id la" by simp
        with i(1) have "find (\<lambda>i. faculty_id (ments st ! i) = mentor_id la) av \<noteq> None"
          unfolding find_None_iff by blast
        then obtain mi where fnd: "find (\<lambda>i. faculty_id (ments st ! i) = mentor_id la) av = Some mi"
          by blast
        then have mi: "mi \<in> set av" and mfid: "faculty_id (ments st ! mi) = mentor_id la"
          by (auto simp: find_Some_iff)
        from mi av have "mi < length M0" by blast
        from len(3) [OF this] mfid have fid: "faculty_id (M0 ! mi) = mentor_id la"
          "faculty_id (ments st ! mi) = faculty_id (M0 ! mi)" by simp_all
        show ?thesis
        proof (cases "int (length (student_roll_numbers la)) + r > max_students (ments st ! mi)
                        \<and> \<not> allow_mentor_overload cfg")
          case True
          with \<open>r > 0\<close> thr False fnd have "handle_remainder cfg av k r st = Inr st_un"
            by (simp add: handle_remainder_def Let_def st_un_def lo_def la_def)
          with un show ?thesis by simp
        next
          case blocked: False
          define st' where "st' = fold_remainder mi r lo st"
          from \<open>r > 0\<close> thr False fnd blocked have "handle_remainder cfg av k r st = Inr st'"
            by (auto simp: handle_remainder_def Let_def st'_def lo_def la_def)
          moreover have "loop_invariant av S M0 (length S) st'"
          proof (rule invariant_assign [OF inv' dist fids av le' mi])
            show "extends_by (faculty_id (M0 ! mi)) (map roll_no (slice (studs st) lo (length S)))
                    (assignments_made st) (assignments_made st')"
              using extends_by_fold [OF False, of "faculty_id (M0 ! mi)"] fid(1)
              by (simp add: st'_def fold_remainder_def Let_def la_def rem)
            show "rolls_of (assignments_made st') =
                    rolls_of (assignments_made st) @ map roll_no (slice (studs st) lo (length S))"
              using rolls_of_fold [OF False]
              by (simp add: st'_def fold_remainder_def Let_def rem)
            show "unassigned st' = unassigned st"
              by (simp add: st'_def fold_remainder_def Let_def)
            show "studs st' = assign_range (faculty_id (M0 ! mi)) lo (length S) (studs st)"
              by (simp add: st'_def fold_remainder_def Let_def fid(2) len)
            show "ments st' = extend_assigned mi (map roll_no (slice (studs st) lo (length S))) (ments st)"
              by (simp add: st'_def fold_remainder_def Let_def rem)
          qed
          ultimately show ?thesis by simp
        qed
      qed
    next
      case thr: False
      show ?thesis
      proof (cases "current_mentor_index st < length av")
        case False
        with \<open>r > 0\<close> thr have "handle_remainder cfg av k r st = Inr st_un"
          by (simp add: handle_remainder_def Let_def st_un_def lo_def)
        with un show ?thesis by simp
      next
        case True
        define mi where "mi = av ! current_mentor_index st"
        define rolls where "rolls = map roll_no (drop lo (studs st))"
        define a where "a = \<lparr> mentor_id = faculty_id (M0 ! mi), student_roll_numbers = rolls,
          batch_number = int k + 1, assignment_notes = Some (RemainderBatchNote r) \<rparr>"
        define st' where "st' = st\<lparr> assignments_made := assignments_made st @ [a],
          ments := extend_assigned mi rolls (ments st),
          studs := assign_range (faculty_id (M0 ! mi)) lo (length (studs st)) (studs st) \<rparr>"
        from True have mi: "mi \<in> set av" by (simp add: mi_def)
        with av have "mi < length M0" by blast
        from len(3) [OF this] have fid: "faculty_id (ments st ! mi) = faculty_id (M0 ! mi)" .
        from ids mi have blank: "strip (faculty_id (M0 ! mi)) \<noteq> []" by blast
        have asg: "Assignment (faculty_id (M0 ! mi)) rolls (int k + 1) (RemainderBatchNote r) = Inr a"
          using blank rne by (simp add: Assignment_def a_def rolls_def)
        have "handle_remainder cfg av k r st = Inr st'"
          using \<open>r > 0\<close> thr True asg fid
          unfolding handle_remainder_def Let_def lo_def [symmetric] mi_def [symmetric]
            rolls_def [symmetric]
          by (auto simp: st'_def)
        moreover have "loop_invariant av S M0 (length S) st'"
        proof (rule invariant_assign [OF inv' dist fids av le' mi])
          show "extends_by (faculty_id (M0 ! mi)) (map roll_no (slice (studs st) lo (length S)))
                  (assignments_made st) (assignments_made st')"
            by (simp add: st'_def a_def rolls_def rem extends_by_snoc)
          show "rolls_of (assignments_made st') =
                  rolls_of (assignments_made st) @ map roll_no (slice (studs st) lo (length S))"
            by (simp add: st'_def a_def rolls_def rem rolls_of_snoc)
        qed (simp_all add: st'_def rolls_def rem len)
        ultimately show ?thesis by simp
      qed
    qed
  qed
qed

lemma processing_order_facts:
  "length (processing_order cfg students) = length students"
  "distinct (map roll_no (processing_order cfg students)) = distinct (map roll_no students)"
  "set (processing_order cfg students) = set students"
  by (simp_all add: processing_order_def distinct_map)

lemma reset_available_facts:
  "length (reset_available ms) = length ms"
  "map faculty_id (reset_available ms) = map faculty_id ms"
  "map availability (reset_available ms) = map availability ms"
  by (simp_all add: reset_available_def)

lemma batches_arith:
  assumes "0 < (B::int)"
  shows "int (nat (int n div B) * nat B) = int n - int n mod B"
    "nat (int n div B) * nat B \<le> n"
    "b < nat (int n div B) \<Longrightarrow> b * nat B < n"
proof -
  from assms have d: "0 \<le> int n div B" by (simp add: pos_imp_zdiv_nonneg_iff)
  with assms have "int (nat (int n div B) * nat B) = (int n div B) * B" by simp
  also have "\<dots> = int n - int n mod B" by (simp add: minus_mod_eq_div_mult)
  finally show e: "int (nat (int n div B) * nat B) = int n - int n mod B" .
  from assms have "0 \<le> int n mod B" by simp
  with e show l: "nat (int n div B) * nat B \<le> n" by linarith
  assume "b < nat (int n div B)"
  then have "Suc b * nat B \<le> nat (int n div B) * nat B"
    by (intro mult_le_mono1) simp
  with l have "b * nat B + nat B \<le> n" by simp
  with assms show "b * nat B < n" by simp
qed

lemma available_exists:
  assumes "int (length students) \<le> total_capacity mentors" "students \<noteq> []"
  shows "available_positions mentors \<noteq> []"
proof -
  from assms have "0 < total_capacity mentors" by (cases students) simp_all
  then have "filter availability mentors \<noteq> []"
    by (auto simp: total_capacity_def)
  then obtain m where "m \<in> set mentors" "availability m"
    by (auto simp: filter_empty_conv)
  then obtain i where "i < length mentors" "availability (mentors ! i)"
    by (auto simp: in_set_conv_nth)
  then have "i \<in> set (available_positions mentors)"
    by (simp add: set_available_positions)
  then show ?thesis by auto
qed

lemma run_succeeds:
  assumes val: "validate_data_consistency cfg students mentors = Inr (True, issues)"
    and pos: "0 < BATCH_SIZE cfg"
  shows "\<exists>st. assign_students_to_mentors cfg students mentors =
               (Inr (create_assignment_summary (processing_order cfg students) mentors
                       (assignments_made st) (unassigned st)), studs st, ments st) \<and>
             loop_invariant (available_positions mentors) (processing_order cfg students)
               (reset_available mentors) (length students) st"
proof -
  define S where "S = processing_order cfg students"
  define M0 where "M0 = reset_available mentors"
  define av where "av = available_positions mentors"
  define k where "k = complete_batches_of cfg students"
  define st0 where "st0 = initial_state cfg students mentors"
  note vf = validation_facts [OF val]
  have lenS: "length S = length students" by (simp add: S_def processing_order_facts)
  have dist: "distinct (map roll_no S)" using vf(2) by (simp add: S_def processing_order_facts)
  have fids: "distinct (map faculty_id M0)" using vf(3) by (simp add: M0_def reset_available_facts)
  have av: "\<forall>i\<in>set av. i < length M0"
    by (simp add: av_def M0_def set_available_positions reset_available_facts)
  have avne: "av \<noteq> []" unfolding av_def by (rule available_exists [OF vf(5) vf(1)])
  have ids: "\<forall>i\<in>set av. strip (faculty_id (M0 ! i)) \<noteq> []"
  proof
    fix i assume "i \<in> set av"
    then have i: "i < length mentors" by (simp add: av_def set_available_positions)
    then have "faculty_id (M0 ! i) = faculty_id (mentors ! i)" by (simp add: M0_def reset_available_def)
    then show "strip (faculty_id (M0 ! i)) \<noteq> []" using vf(4) i by simp
  qed
  note ar = batches_arith [OF pos, where n = "length S"]
  have k: "k = nat (int (length S) div BATCH_SIZE cfg)"
    by (simp add: k_def complete_batches_of_def lenS)
  have init: "loop_invariant av S M0 (0 * nat (BATCH_SIZE cfg)) st0"
    by (simp add: loop_invariant_def cover_def mentors_agree_def students_agree_def st0_def
          initial_state_def S_def M0_def rolls_of_def)
  have "\<exists>st. process_batches cfg av [0..<k] st0 = (None, st) \<and>
              loop_invariant av S M0 (k * nat (BATCH_SIZE cfg)) st"
  proof (rule process_batches_upto [where P = "\<lambda>b. loop_invariant av S M0 (b * nat (BATCH_SIZE cfg))"])
    show "loop_invariant av S M0 (0 * nat (BATCH_SIZE cfg)) st0" by (rule init)
  next
    fix b st
    assume b: "b < k" and inv: "loop_invariant av S M0 (b * nat (BATCH_SIZE cfg)) st"
    from b have "b * nat (BATCH_SIZE cfg) < length S" unfolding k by (rule ar(3))
    with inv show "\<exists>st'. process_batch cfg av b st = Inr st' \<and>
                     loop_invariant av S M0 (Suc b * nat (BATCH_SIZE cfg)) st'"
      by (intro process_batch_step dist fids av avne ids pos)
  qed
  then obtain st1 where pb: "process_batches cfg av [0..<k] st0 = (None, st1)"
    and inv1: "loop_invariant av S M0 (k * nat (BATCH_SIZE cfg)) st1"
    by blast
  have r: "remainder_of cfg students = int (length S) - int (k * nat (BATCH_SIZE cfg))"
    unfolding k ar(1) by (simp add: remainder_of_def lenS)
  have le: "k * nat (BATCH_SIZE cfg) \<le> length S" unfolding k by (rule ar(2))
  from handle_remainder_step [OF inv1 dist fids av ids r le]
  obtain st2 where hr: "handle_remainder cfg av k (remainder_of cfg students) st1 = Inr st2"
    and inv2: "loop_invariant av S M0 (length S) st2"
    by blast
  have "assign_students_to_mentors cfg students mentors =
          (Inr (create_assignment_summary S mentors (assignments_made st2) (unassigned st2)),
           studs st2, ments st2)"
    using avne pos pb hr
    by (cases "sort_by_roll_number cfg")
       (simp_all add: assign_students_to_mentors_def val Let_def av_def k_def st0_def S_def
          complete_batches_of_def remainder_of_def initial_state_def processing_order_def)
  with inv2 show ?thesis
    unfolding S_def M0_def av_def lenS [unfolded S_def] by blast
qed

lemma filter_unique:
  assumes "distinct (map f xs)" "x \<in> set xs" "P x"
  shows "filter (\<lambda>y. P y \<and> f y = f x) xs = [x]"
  using assms
proof (induction xs)
  case Nil
  then show ?case by simp
next
  case (Cons y ys)
  show ?case
  proof (cases "y = x")
    case True
    from Cons.prems(1) True have "f x \<notin> f ` set ys" by simp
    then have "\<forall>z\<in>set ys. f z \<noteq> f x" by (metis imageI)
    then have "filter (\<lambda>y. P y \<and> f y = f x) ys = []"
      by (simp add: filter_empty_conv)
    with True Cons.prems(3) show ?thesis by simp
  next
    case False
    with Cons.prems have x: "x \<in> set ys" by simp
    with Cons.prems(1) have "f y \<noteq> f x" by auto
    with Cons.IH x Cons.prems show ?thesis by simp
  qed
qed

subsection \<open>Every student ends in exactly one place\<close>

text \<open>
  Claim C2. When validation passes and the batch size is positive, the call returns a summary;
  the sizes of its assignments and the number of unassigned students add up to the number of
  students, no roll number occurs twice in the assignments and the unassigned list taken
  together, and the roll numbers that occur there are exactly those of the input students.
  Validation passing implies what the claim asks of the mentors (enough capacity, and enough
  available mentors when wrap-around is off). A batch size that is not positive is excluded:
  zero raises, and a negative one passes validation and assigns nobody.
\<close>

theorem assignment_partitions_students:
  assumes "validate_data_consistency cfg students mentors = Inr (True, [])"
    and "0 < BATCH_SIZE cfg"
  shows "\<exists>summary ss' ms'.
           assign_students_to_mentors cfg students mentors = (Inr summary, ss', ms') \<and>
           sum_list (map (\<lambda>a. length (student_roll_numbers a)) (assignments summary))
             + length (unassigned_students summary) = length students \<and>
           distinct (concat (map student_roll_numbers (assignments summary))
                       @ unassigned_students summary) \<and>
           set (concat (map student_roll_numbers (assignments summary))
                  @ unassigned_students summary) = set (map roll_no students)"
proof -
  let ?S = "processing_order cfg students"
  from run_succeeds [OF assms] obtain st where
    run: "assign_students_to_mentors cfg students mentors =
            (Inr (create_assignment_summary ?S mentors (assignments_made st) (unassigned st)),
             studs st, ments st)"
    and inv: "loop_invariant (available_positions mentors) ?S (reset_available mentors)
                (length students) st"
    by blast
  let ?places = "rolls_of (assignments_made st) @ map roll_no (unassigned st)"
  from inv have d: "distinct ?places"
    and "set ?places = set (map roll_no (take (length students) ?S))"
    by (simp_all add: loop_invariant_def cover_def)
  then have e: "set ?places = set (map roll_no students)"
    by (simp add: processing_order_facts)
  from validation_facts(2) [OF assms(1)] have ds: "distinct (map roll_no students)" .
  have "length ?places = card (set ?places)"
    using d by (simp only: distinct_card)
  also have "\<dots> = card (set (map roll_no students))"
    by (simp only: e)
  also have "\<dots> = length (map roll_no students)"
    using ds by (simp only: distinct_card)
  finally have "length ?places = length students" by simp
  then have l: "sum_list (map (\<lambda>a. length (student_roll_numbers a)) (assignments_made st))
                  + length (unassigned st) = length students"
    by (simp add: rolls_of_def length_concat comp_def)
  from run d e l show ?thesis
    by (simp add: create_assignment_summary_def rolls_of_def)
qed

theorem assignment_partitions_students_witness:
  "validate_data_consistency overload_off (map new_student [1..34])
     [new_mentor ''FAC001'' 30, new_mentor ''FAC002'' 30] = Inr (True, []) \<and>
   0 < BATCH_SIZE overload_off \<and>
   (\<exists>summary ss' ms'.
       assign_students_to_mentors overload_off (map new_student [1..34])
         [new_mentor ''FAC001'' 30, new_mentor ''FAC002'' 30] = (Inr summary, ss', ms') \<and>
       sum_list (map (\<lambda>a. length (student_roll_numbers a)) (assignments summary))
         + length (unassigned_students summary) = length (map new_student [1..34]) \<and>
       distinct (concat (map student_roll_numbers (assignments summary))
                   @ unassigned_students summary) \<and>
       set (concat (map student_roll_numbers (assignments summary))
              @ unassigned_students summary) = set (map roll_no (map new_student [1..34]))) \<and>
   (case fst (assign_students_to_mentors overload_off (map new_student [1..34])
                [new_mentor ''FAC001'' 30, new_mentor ''FAC002'' 30]) of
      Inl e \<Rightarrow> False
    | Inr summary \<Rightarrow> map student_roll_numbers (assignments summary) = [[1..30]] \<and>
                      unassigned_students summary = [31, 32, 33, 34])"
proof -
  have v: "validate_data_consistency overload_off (map new_student [1..34])
             [new_mentor ''FAC001'' 30, new_mentor ''FAC002'' 30] = Inr (True, [])"
    by code_simp
  have b: "0 < BATCH_SIZE overload_off"
    by (simp add: overload_off_def Config_def)
  have c: "case fst (assign_students_to_mentors overload_off (map new_student [1..34])
                [new_mentor ''FAC001'' 30, new_mentor ''FAC002'' 30]) of
      Inl e \<Rightarrow> False
    | Inr summary \<Rightarrow> map student_roll_numbers (assignments summary) = [[1..30]] \<and>
                      unassigned_students summary = [31, 32, 33, 34]"
    by code_simp
  from assignment_partitions_students [OF v b] v b c show ?thesis
    by blast
qed

subsection \<open>Assignments, mentor objects and student objects agree\<close>

lemma success_validated:
  assumes "assign_students_to_mentors cfg students mentors = (Inr summary, ss', ms')"
  shows "\<exists>issues. validate_data_consistency cfg students mentors = Inr (True, issues)"
    and "BATCH_SIZE cfg \<noteq> 0"
  using assms
  by (auto simp: assign_students_to_mentors_def Let_def
           split: sum.splits prod.splits if_splits option.splits)

lemma negative_batch_run:
  assumes val: "validate_data_consistency cfg students mentors = Inr (True, issues)"
    and neg: "BATCH_SIZE cfg < 0"
  shows "assign_students_to_mentors cfg students mentors =
           (Inr (create_assignment_summary (processing_order cfg students) mentors [] []),
            processing_order cfg students, reset_available mentors)"
proof -
  note vf = validation_facts [OF val]
  have avne: "available_positions mentors \<noteq> []"
    by (rule available_exists [OF vf(5) vf(1)])
  from neg have d: "int (length students) div BATCH_SIZE cfg \<le> 0"
    by (simp add: div_nonneg_neg_le0)
  from neg have "int (length students) mod BATCH_SIZE cfg \<le> 0"
    by simp
  then have m: "(0 < int (length students) mod BATCH_SIZE cfg) = False"
    by auto
  from avne neg d show ?thesis
    by (cases "sort_by_roll_number cfg")
       (simp_all add: assign_students_to_mentors_def val Let_def handle_remainder_def
          processing_order_def m)
qed

text \<open>
  Claim C9. After a call that returns a summary: the student objects carry the roll numbers of
  the input in processing order; for every assignment of the summary the available mentors whose
  \<open>faculty_id\<close> is the assignment's \<open>mentor_id\<close> are exactly one mentor, whose
  \<open>assigned_students\<close> contain every roll number of the assignment, and every student object
  whose roll number is in the assignment has that \<open>mentor_id\<close> as \<open>assigned_mentor_id\<close>; no
  roll number of \<open>unassigned_students\<close> is in any assignment.
\<close>

theorem assignments_agree_with_objects:
  assumes "assign_students_to_mentors cfg students mentors = (Inr summary, ss', ms')"
  shows "map roll_no ss' = map roll_no (processing_order cfg students) \<and>
         (\<forall>a\<in>set (assignments summary).
             (\<exists>m. filter (\<lambda>m. availability m \<and> faculty_id m = mentor_id a) ms' = [m] \<and>
                  set (student_roll_numbers a) \<subseteq> set (assigned_students m)) \<and>
             (\<forall>s\<in>set ss'. roll_no s \<in> set (student_roll_numbers a) \<longrightarrow>
                            assigned_mentor_id s = Some (mentor_id a))) \<and>
         set (unassigned_students summary)
           \<inter> set (concat (map student_roll_numbers (assignments summary))) = {}"
proof (cases "0 < BATCH_SIZE cfg")
  case False
  with success_validated(2) [OF assms] have neg: "BATCH_SIZE cfg < 0" by simp
  from success_validated(1) [OF assms] obtain issues where
    val: "validate_data_consistency cfg students mentors = Inr (True, issues)" by blast
  from negative_batch_run [OF val neg] assms show ?thesis
    by (auto simp: create_assignment_summary_def)
next
  case pos: True
  let ?S = "processing_order cfg students"
  let ?av = "available_positions mentors"
  let ?M0 = "reset_available mentors"
  from success_validated(1) [OF assms] obtain issues where
    val: "validate_data_consistency cfg students mentors = Inr (True, issues)" by blast
  from run_succeeds [OF val pos] obtain st where
    run: "assign_students_to_mentors cfg students mentors =
            (Inr (create_assignment_summary ?S mentors (assignments_made st) (unassigned st)),
             studs st, ments st)"
    and inv: "loop_invariant ?av ?S ?M0 (length students) st"
    by blast
  from run assms have res: "summary = create_assignment_summary ?S mentors (assignments_made st) (unassigned st)"
    "ss' = studs st" "ms' = ments st"
    by simp_all
  from inv have c: "cover ?S (length students) st" and m: "mentors_agree ?av ?M0 st"
    and s: "students_agree st"
    by (simp_all add: loop_invariant_def)
  from c have rolls: "map roll_no (studs st) = map roll_no ?S"
    and disj: "set (map roll_no (unassigned st)) \<inter> set (rolls_of (assignments_made st)) = {}"
    by (auto simp: cover_def)
  from m have f: "map faculty_id (ments st) = map faculty_id mentors"
    and a: "map availability (ments st) = map availability mentors"
    by (simp_all add: mentors_agree_def reset_available_facts)
  from f have len: "length (ments st) = length mentors" by (rule map_eq_imp_length_eq)
  from validation_facts(3) [OF val] f have fd: "distinct (map faculty_id (ments st))" by simp
  have mentor: "\<exists>m. filter (\<lambda>m. availability m \<and> faculty_id m = mentor_id x) (ments st) = [m] \<and>
                    set (student_roll_numbers x) \<subseteq> set (assigned_students m)"
    if "x \<in> set (assignments_made st)" for x
  proof -
    from m that obtain i where i: "i \<in> set ?av" "faculty_id (?M0 ! i) = mentor_id x"
      "set (student_roll_numbers x) \<subseteq> set (assigned_students (ments st ! i))"
      by (auto simp: mentors_agree_def)
    from i(1) have il: "i < length mentors" and ia: "availability (mentors ! i)"
      by (simp_all add: set_available_positions)
    from il len have im: "ments st ! i \<in> set (ments st)" by simp
    from il len have "availability (ments st ! i) = map availability (ments st) ! i" by simp
    also have "\<dots> = availability (mentors ! i)" using il by (simp add: a)
    finally have av_i: "availability (ments st ! i)" using ia by simp
    from il len have "faculty_id (ments st ! i) = map faculty_id (ments st) ! i" by simp
    also have "\<dots> = faculty_id (mentors ! i)" using il by (simp add: f)
    also have "\<dots> = mentor_id x" using il i(2) by (auto simp: reset_available_def split: if_splits)
    finally have fid: "faculty_id (ments st ! i) = mentor_id x" .
    from filter_unique [of faculty_id "ments st" "ments st ! i" availability, OF fd im av_i]
    have "filter (\<lambda>m. availability m \<and> faculty_id m = mentor_id x) (ments st) = [ments st ! i]"
      by (simp add: fid)
    with i(3) show ?thesis by blast
  qed
  from rolls mentor s disj show ?thesis
    unfolding res
    by (simp add: create_assignment_summary_def students_agree_def rolls_of_def)
qed

theorem assignments_agree_with_objects_witness:
  "\<exists>summary ss' ms'.
       assign_students_to_mentors Config (map new_student [1..75])
         [new_mentor ''FAC001'' 30, new_mentor ''FAC002'' 30, new_mentor ''FAC003'' 30]
         = (Inr summary, ss', ms') \<and>
       map mentor_id (assignments summary) = [''FAC001'', ''FAC002'', ''FAC003''] \<and>
       map student_roll_numbers (assignments summary) = [[1..30], [31..60], [61..75]] \<and>
       map roll_no ss' = map roll_no (processing_order Config (map new_student [1..75])) \<and>
       (\<forall>a\<in>set (assignments summary).
           (\<exists>m. filter (\<lambda>m. availability m \<and> faculty_id m = mentor_id a) ms' = [m] \<and>
                set (student_roll_numbers a) \<subseteq> set (assigned_students m)) \<and>
           (\<forall>s\<in>set ss'. roll_no s \<in> set (student_roll_numbers a) \<longrightarrow>
                          assigned_mentor_id s = Some (mentor_id a))) \<and>
       set (unassigned_students summary)
         \<inter> set (concat (map student_roll_numbers (assignments summary))) = {}"
proof -
  let ?run = "assign_students_to_mentors Config (map new_student [1..75])
         [new_mentor ''FAC001'' 30, new_mentor ''FAC002'' 30, new_mentor ''FAC003'' 30]"
  have c: "case fst ?run of
      Inl e \<Rightarrow> False
    | Inr summary \<Rightarrow> map mentor_id (assignments summary) = [''FAC001'', ''FAC002'', ''FAC003''] \<and>
                      map student_roll_numbers (assignments summary) = [[1..30], [31..60], [61..75]]"
    by code_simp
  then obtain summary where s: "fst ?run = Inr summary"
    "map mentor_id (assignments summary) = [''FAC001'', ''FAC002'', ''FAC003'']"
    "map student_roll_numbers (assignments summary) = [[1..30], [31..60], [61..75]]"
    by (cases "fst ?run") simp_all
  then obtain ss' ms' where run: "?run = (Inr summary, ss', ms')"
    by (cases ?run) auto
  note t = assignments_agree_with_objects [OF run]
  show ?thesis
  proof (intro exI conjI)
    show "?run = (Inr summary, ss', ms')" by (rule run)
    show "map mentor_id (assignments summary) = [''FAC001'', ''FAC002'', ''FAC003'']" by (rule s(2))
    show "map student_roll_numbers (assignments summary) = [[1..30], [31..60], [61..75]]" by (rule s(3))
    show "map roll_no ss' = map roll_no (processing_order Config (map new_student [1..75]))"
      by (rule t [THEN conjunct1])
    show "\<forall>a\<in>set (assignments summary).
           (\<exists>m. filter (\<lambda>m. availability m \<and> faculty_id m = mentor_id a) ms' = [m] \<and>
                set (student_roll_numbers a) \<subseteq> set (assigned_students m)) \<and>
           (\<forall>s\<in>set ss'. roll_no s \<in> set (student_roll_numbers a) \<longrightarrow>
                          assigned_mentor_id s = Some (mentor_id a))"
      by (rule t [THEN conjunct2, THEN conjunct1])
    show "set (unassigned_students summary)
         \<inter> set (concat (map student_roll_numbers (assignments summary))) = {}"
      by (rule t [THEN conjunct2, THEN conjunct2])
  qed
qed

subsection \<open>The remainder and the threshold\<close>

lemma assign_range_to_end:
  "assign_range fid lo (length xs) xs = take lo xs @ map (set_assigned_mentor fid) (drop lo xs)"
  by (simp add: assign_range_def slice_def)

text \<open>
  The remainder step (lines 121-189) on any state \<open>st\<close> of the run, for a positive
  remainder \<open>r\<close> after \<open>k\<close> complete batches:
  \<^item> \<open>r\<close> within the threshold, an assignment exists, and its size plus \<open>r\<close> is within
    \<open>max_students\<close> of its mentor or overload is allowed: the last assignment keeps its mentor
    and batch number and gets the roll numbers of the remainder appended, the mentor's
    \<open>assigned_students\<close> get them appended, every remainder student gets that mentor as
    \<open>assigned_mentor_id\<close>, and nothing else changes (no assignment is added, nobody is unassigned);
  \<^item> \<open>r\<close> within the threshold and no assignment exists, or the size of the last assignment
    plus \<open>r\<close> exceeds \<open>max_students\<close> with overload not allowed: the whole remainder is
    appended to the unassigned students and nothing else changes;
  \<^item> \<open>r\<close> above the threshold and the cursor is inside the list of available mentors: one
    assignment with batch number \<open>k + 1\<close> is added for the mentor at the cursor, holding the
    remainder;
  \<^item> \<open>r\<close> above the threshold and the cursor is past the end: the whole remainder is
    unassigned.

  The mentor of the last assignment is the first available mentor with that \<open>faculty_id\<close>, as
  the code looks it up. The capacity test is the one the code computes
  (\<^verbatim>\<open>total_after_addition\<close>, line 135): the size of the last assignment plus the remainder,
  not the number of students the mentor holds.
\<close>

lemma remainder_step_cases:
  assumes "0 < r"
  shows
    "(r \<le> remainder_threshold cfg \<and> assignments_made st \<noteq> [] \<and>
      find (\<lambda>i. faculty_id (ments st ! i) = mentor_id (last (assignments_made st))) av = Some mi \<and>
      (int (length (student_roll_numbers (last (assignments_made st)))) + r
          \<le> max_students (ments st ! mi) \<or> allow_mentor_overload cfg)
      \<longrightarrow> (\<exists>st'. handle_remainder cfg av k r st = Inr st' \<and>
             length (assignments_made st') = length (assignments_made st) \<and>
             butlast (assignments_made st') = butlast (assignments_made st) \<and>
             mentor_id (last (assignments_made st')) = mentor_id (last (assignments_made st)) \<and>
             batch_number (last (assignments_made st')) = batch_number (last (assignments_made st)) \<and>
             student_roll_numbers (last (assignments_made st')) =
               student_roll_numbers (last (assignments_made st))
                 @ map roll_no (remainder_students cfg k st) \<and>
             faculty_id (ments st ! mi) = mentor_id (last (assignments_made st)) \<and>
             ments st' = (ments st)[mi := (ments st ! mi)\<lparr>assigned_students :=
                            assigned_students (ments st ! mi)
                              @ map roll_no (remainder_students cfg k st)\<rparr>] \<and>
             studs st' = take (k * nat (BATCH_SIZE cfg)) (studs st)
                           @ map (set_assigned_mentor (mentor_id (last (assignments_made st))))
                               (remainder_students cfg k st) \<and>
             unassigned st' = unassigned st)) \<and>
     (r \<le> remainder_threshold cfg \<and>
      (assignments_made st = [] \<or>
       find (\<lambda>i. faculty_id (ments st ! i) = mentor_id (last (assignments_made st))) av = Some mi \<and>
       int (length (student_roll_numbers (last (assignments_made st)))) + r
          > max_students (ments st ! mi) \<and> \<not> allow_mentor_overload cfg)
      \<longrightarrow> handle_remainder cfg av k r st =
            Inr (st\<lparr>unassigned := unassigned st @ remainder_students cfg k st\<rparr>)) \<and>
     (remainder_threshold cfg < r \<and> current_mentor_index st < length av \<and>
      strip (faculty_id (ments st ! (av ! current_mentor_index st))) \<noteq> [] \<and>
      remainder_students cfg k st \<noteq> []
      \<longrightarrow> (\<exists>st'. handle_remainder cfg av k r st = Inr st' \<and>
             assignments_made st' = assignments_made st @
               [\<lparr> mentor_id = faculty_id (ments st ! (av ! current_mentor_index st)),
                  student_roll_numbers = map roll_no (remainder_students cfg k st),
                  batch_number = int k + 1,
                  assignment_notes = Some (RemainderBatchNote r) \<rparr>] \<and>
             ments st' = (ments st)[av ! current_mentor_index st :=
                            (ments st ! (av ! current_mentor_index st))\<lparr>assigned_students :=
                               assigned_students (ments st ! (av ! current_mentor_index st))
                                 @ map roll_no (remainder_students cfg k st)\<rparr>] \<and>
             studs st' = take (k * nat (BATCH_SIZE cfg)) (studs st)
                           @ map (set_assigned_mentor
                                    (faculty_id (ments st ! (av ! current_mentor_index st))))
                               (remainder_students cfg k st) \<and>
             unassigned st' = unassigned st)) \<and>
     (remainder_threshold cfg < r \<and> length av \<le> current_mentor_index st
      \<longrightarrow> handle_remainder cfg av k r st =
            Inr (st\<lparr>unassigned := unassigned st @ remainder_students cfg k st\<rparr>))"
proof (intro conjI impI)
  assume h: "r \<le> remainder_threshold cfg \<and> assignments_made st \<noteq> [] \<and>
      find (\<lambda>i. faculty_id (ments st ! i) = mentor_id (last (assignments_made st))) av = Some mi \<and>
      (int (length (student_roll_numbers (last (assignments_made st)))) + r
          \<le> max_students (ments st ! mi) \<or> allow_mentor_overload cfg)"
  then have fnd: "find (\<lambda>i. faculty_id (ments st ! i) = mentor_id (last (assignments_made st))) av = Some mi"
    by simp
  then have fid: "faculty_id (ments st ! mi) = mentor_id (last (assignments_made st))"
    by (auto simp: find_Some_iff)
  from h assms have "handle_remainder cfg av k r st =
      Inr (fold_remainder mi r (k * nat (BATCH_SIZE cfg)) st)"
    by (auto simp: handle_remainder_def Let_def)
  then show "\<exists>st'. handle_remainder cfg av k r st = Inr st' \<and>
             length (assignments_made st') = length (assignments_made st) \<and>
             butlast (assignments_made st') = butlast (assignments_made st) \<and>
             mentor_id (last (assignments_made st')) = mentor_id (last (assignments_made st)) \<and>
             batch_number (last (assignments_made st')) = batch_number (last (assignments_made st)) \<and>
             student_roll_numbers (last (assignments_made st')) =
               student_roll_numbers (last (assignments_made st))
                 @ map roll_no (remainder_students cfg k st) \<and>
             faculty_id (ments st ! mi) = mentor_id (last (assignments_made st)) \<and>
             ments st' = (ments st)[mi := (ments st ! mi)\<lparr>assigned_students :=
                            assigned_students (ments st ! mi)
                              @ map roll_no (remainder_students cfg k st)\<rparr>] \<and>
             studs st' = take (k * nat (BATCH_SIZE cfg)) (studs st)
                           @ map (set_assigned_mentor (mentor_id (last (assignments_made st))))
                               (remainder_students cfg k st) \<and>
             unassigned st' = unassigned st"
    using h fid
    by (simp add: fold_remainder_def Let_def remainder_students_def extend_assigned_def
          assign_range_to_end)
next
  assume h: "r \<le> remainder_threshold cfg \<and>
      (assignments_made st = [] \<or>
       find (\<lambda>i. faculty_id (ments st ! i) = mentor_id (last (assignments_made st))) av = Some mi \<and>
       int (length (student_roll_numbers (last (assignments_made st)))) + r
          > max_students (ments st ! mi) \<and> \<not> allow_mentor_overload cfg)"
  with assms show "handle_remainder cfg av k r st =
            Inr (st\<lparr>unassigned := unassigned st @ remainder_students cfg k st\<rparr>)"
    by (auto simp: handle_remainder_def Let_def remainder_students_def)
next
  assume h: "remainder_threshold cfg < r \<and> current_mentor_index st < length av \<and>
      strip (faculty_id (ments st ! (av ! current_mentor_index st))) \<noteq> [] \<and>
      remainder_students cfg k st \<noteq> []"
  with assms show "\<exists>st'. handle_remainder cfg av k r st = Inr st' \<and>
             assignments_made st' = assignments_made st @
               [\<lparr> mentor_id = faculty_id (ments st ! (av ! current_mentor_index st)),
                  student_roll_numbers = map roll_no (remainder_students cfg k st),
                  batch_number = int k + 1,
                  assignment_notes = Some (RemainderBatchNote r) \<rparr>] \<and>
             ments st' = (ments st)[av ! current_mentor_index st :=
                            (ments st ! (av ! current_mentor_index st))\<lparr>assigned_students :=
                               assigned_students (ments st ! (av ! current_mentor_index st))
                                 @ map roll_no (remainder_students cfg k st)\<rparr>] \<and>
             studs st' = take (k * nat (BATCH_SIZE cfg)) (studs st)
                           @ map (set_assigned_mentor
                                    (faculty_id (ments st ! (av ! current_mentor_index st))))
                               (remainder_students cfg k st) \<and>
             unassigned st' = unassigned st"
    by (simp add: handle_remainder_def Let_def remainder_students_def Assignment_def
          extend_assigned_def assign_range_to_end)
next
  assume h: "remainder_threshold cfg < r \<and> length av \<le> current_mentor_index st"
  with assms show "handle_remainder cfg av k r st =
            Inr (st\<lparr>unassigned := unassigned st @ remainder_students cfg k st\<rparr>)"
    by (simp add: handle_remainder_def Let_def remainder_students_def)
qed

text \<open>
  The run of the specification's example: 64 students, batch size 30, threshold 12 and three
  mentors of capacity 34 give two assignments, of 30 and of 34 students, and no third one.
  Then the four cases, each on the state in which the batch loop of a call ends, and what the
  calls return: a fold refused for capacity (34 students, two mentors of capacity 30, overload
  off), a remainder of 15 that gets the third mentor, a remainder of 15 with no mentor left
  (two mentors, wrap-around on, which the remainder step does not apply), and 5 students, who
  are all unassigned because no assignment exists to fold them into.
\<close>

lemma remainder_step_examples:
  "(case fst (assign_students_to_mentors Config (map new_student [1..64]) (three_mentors 34)) of
      Inl e \<Rightarrow> False
    | Inr summary \<Rightarrow>
        map mentor_id (assignments summary) = [''FAC001'', ''FAC002''] \<and>
        map student_roll_numbers (assignments summary) = [[1..30], [31..64]] \<and>
        map batch_number (assignments summary) = [1, 2] \<and>
        unassigned_students summary = []) \<and>
   (\<exists>st'. handle_remainder Config [0, 1, 2] 2 4
            (after_batches Config (map new_student [1..64]) (three_mentors 34)) = Inr st' \<and>
          length (assignments_made st') = 2 \<and>
          student_roll_numbers (last (assignments_made st')) = [31..64] \<and>
          unassigned st' = []) \<and>
   (\<exists>st'. handle_remainder overload_off [0, 1] 1 4
            (after_batches overload_off (map new_student [1..34]) (two_mentors 30)) = Inr st' \<and>
          map student_roll_numbers (assignments_made st') = [[1..30]] \<and>
          map roll_no (unassigned st') = [31, 32, 33, 34]) \<and>
   (\<exists>st'. handle_remainder Config [0, 1, 2] 2 15
            (after_batches Config (map new_student [1..75]) (three_mentors 30)) = Inr st' \<and>
          map batch_number (assignments_made st') = [1, 2, 3] \<and>
          mentor_id (last (assignments_made st')) = ''FAC003'' \<and>
          student_roll_numbers (last (assignments_made st')) = [61..75] \<and>
          unassigned st' = []) \<and>
   (\<exists>st'. handle_remainder wrap_on [0, 1] 2 15
            (after_batches wrap_on (map new_student [1..75]) (two_mentors 40)) = Inr st' \<and>
          map batch_number (assignments_made st') = [1, 2] \<and>
          map roll_no (unassigned st') = [61..75]) \<and>
   (case fst (assign_students_to_mentors overload_off (map new_student [1..34]) (two_mentors 30)) of
         Inl e \<Rightarrow> False
       | Inr summary \<Rightarrow>
           map student_roll_numbers (assignments summary) = [[1..30]] \<and>
           unassigned_students summary = [31, 32, 33, 34]) \<and>
   (case fst (assign_students_to_mentors Config (map new_student [1..75]) (three_mentors 30)) of
         Inl e \<Rightarrow> False
       | Inr summary \<Rightarrow>
           map mentor_id (assignments summary) = [''FAC001'', ''FAC002'', ''FAC003''] \<and>
           map student_roll_numbers (assignments summary) = [[1..30], [31..60], [61..75]] \<and>
           map batch_number (assignments summary) = [1, 2, 3] \<and>
           unassigned_students summary = []) \<and>
   (case fst (assign_students_to_mentors wrap_on (map new_student [1..75]) (two_mentors 40)) of
         Inl e \<Rightarrow> False
       | Inr summary \<Rightarrow>
           map student_roll_numbers (assignments summary) = [[1..30], [31..60]] \<and>
           unassigned_students summary = [61..75]) \<and>
   (case fst (assign_students_to_mentors Config (map new_student [1..5]) (two_mentors 30)) of
         Inl e \<Rightarrow> False
       | Inr summary \<Rightarrow>
           assignments summary = [] \<and> unassigned_students summary = [1, 2, 3, 4, 5])"
proof -
  let ?s64 = "after_batches Config (map new_student [1..64]) (three_mentors 34)"
  let ?s34 = "after_batches overload_off (map new_student [1..34]) (two_mentors 30)"
  let ?s75 = "after_batches Config (map new_student [1..75]) (three_mentors 30)"
  let ?w75 = "after_batches wrap_on (map new_student [1..75]) (two_mentors 40)"
  let ?u34 = "?s34\<lparr>unassigned := unassigned ?s34 @ remainder_students overload_off 1 ?s34\<rparr>"
  let ?u75 = "?w75\<lparr>unassigned := unassigned ?w75 @ remainder_students wrap_on 2 ?w75\<rparr>"
  let ?a75 = "assignments_made ?s75 @
               [\<lparr> mentor_id = faculty_id (ments ?s75 ! ([0, 1, 2] ! current_mentor_index ?s75)),
                  student_roll_numbers = map roll_no (remainder_students Config 2 ?s75),
                  batch_number = int 2 + 1,
                  assignment_notes = Some (RemainderBatchNote 15) \<rparr>]"
  have p4: "(0::int) < 4" and p15: "(0::int) < 15" by simp_all
  have run: "case fst (assign_students_to_mentors Config (map new_student [1..64]) (three_mentors 34)) of
      Inl e \<Rightarrow> False
    | Inr summary \<Rightarrow>
        map mentor_id (assignments summary) = [''FAC001'', ''FAC002''] \<and>
        map student_roll_numbers (assignments summary) = [[1..30], [31..64]] \<and>
        map batch_number (assignments summary) = [1, 2] \<and>
        unassigned_students summary = []"
    by code_simp
  have h1: "4 \<le> remainder_threshold Config \<and> assignments_made ?s64 \<noteq> [] \<and>
      find (\<lambda>i. faculty_id (ments ?s64 ! i) = mentor_id (last (assignments_made ?s64))) [0, 1, 2] = Some 1 \<and>
      (int (length (student_roll_numbers (last (assignments_made ?s64)))) + 4
          \<le> max_students (ments ?s64 ! 1) \<or> allow_mentor_overload Config)"
    by code_simp
  have v1a: "length (assignments_made ?s64) = 2"
    by code_simp
  have v1b: "student_roll_numbers (last (assignments_made ?s64))
               @ map roll_no (remainder_students Config 2 ?s64) = [31..64]"
    by code_simp
  have v1c: "unassigned ?s64 = []"
    by code_simp
  from remainder_step_cases [where r = 4 and cfg = Config and st = ?s64
      and av = "[0, 1, 2]" and mi = 1 and k = 2, OF p4, THEN conjunct1, THEN mp, OF h1]
  obtain st1 where e1: "handle_remainder Config [0, 1, 2] 2 4 ?s64 = Inr st1"
    and l1: "length (assignments_made st1) = length (assignments_made ?s64)"
    and r1: "student_roll_numbers (last (assignments_made st1)) =
               student_roll_numbers (last (assignments_made ?s64))
                 @ map roll_no (remainder_students Config 2 ?s64)"
    and u1: "unassigned st1 = unassigned ?s64"
    by blast
  have c1: "\<exists>st'. handle_remainder Config [0, 1, 2] 2 4 ?s64 = Inr st' \<and>
          length (assignments_made st') = 2 \<and>
          student_roll_numbers (last (assignments_made st')) = [31..64] \<and>
          unassigned st' = []"
  proof (intro exI conjI)
    show "handle_remainder Config [0, 1, 2] 2 4 ?s64 = Inr st1" by (rule e1)
    show "length (assignments_made st1) = 2" by (simp only: l1 v1a)
    show "student_roll_numbers (last (assignments_made st1)) = [31..64]" by (simp only: r1 v1b)
    show "unassigned st1 = []" by (simp only: u1 v1c)
  qed
  have h2: "4 \<le> remainder_threshold overload_off \<and>
      (assignments_made ?s34 = [] \<or>
       find (\<lambda>i. faculty_id (ments ?s34 ! i) = mentor_id (last (assignments_made ?s34))) [0, 1] = Some 0 \<and>
       int (length (student_roll_numbers (last (assignments_made ?s34)))) + 4
          > max_students (ments ?s34 ! 0) \<and> \<not> allow_mentor_overload overload_off)"
    by code_simp
  have v2a: "map student_roll_numbers (assignments_made ?u34) = [[1..30]]"
    by code_simp
  have v2b: "map roll_no (unassigned ?u34) = [31, 32, 33, 34]"
    by code_simp
  have c2: "\<exists>st'. handle_remainder overload_off [0, 1] 1 4 ?s34 = Inr st' \<and>
          map student_roll_numbers (assignments_made st') = [[1..30]] \<and>
          map roll_no (unassigned st') = [31, 32, 33, 34]"
  proof (intro exI conjI)
    show "handle_remainder overload_off [0, 1] 1 4 ?s34 = Inr ?u34"
      by (rule remainder_step_cases [where r = 4 and cfg = overload_off and st = ?s34
            and av = "[0, 1]" and mi = 0 and k = 1, OF p4,
            THEN conjunct2, THEN conjunct1, THEN mp, OF h2])
    show "map student_roll_numbers (assignments_made ?u34) = [[1..30]]" by (rule v2a)
    show "map roll_no (unassigned ?u34) = [31, 32, 33, 34]" by (rule v2b)
  qed
  have h3: "remainder_threshold Config < 15 \<and> current_mentor_index ?s75 < length [0::nat, 1, 2] \<and>
      strip (faculty_id (ments ?s75 ! ([0, 1, 2] ! current_mentor_index ?s75))) \<noteq> [] \<and>
      remainder_students Config 2 ?s75 \<noteq> []"
    by code_simp
  have v3a: "map batch_number ?a75 = [1, 2, 3]"
    by code_simp
  have v3b: "mentor_id (last ?a75) = ''FAC003''"
    by code_simp
  have v3c: "student_roll_numbers (last ?a75) = [61..75]"
    by code_simp
  have v3d: "unassigned ?s75 = []"
    by code_simp
  from remainder_step_cases [where r = 15 and cfg = Config and st = ?s75
      and av = "[0, 1, 2]" and mi = 0 and k = 2, OF p15,
      THEN conjunct2, THEN conjunct2, THEN conjunct1, THEN mp, OF h3]
  obtain st3 where e3: "handle_remainder Config [0, 1, 2] 2 15 ?s75 = Inr st3"
    and a3: "assignments_made st3 = ?a75"
    and u3: "unassigned st3 = unassigned ?s75"
    by blast
  have c3: "\<exists>st'. handle_remainder Config [0, 1, 2] 2 15 ?s75 = Inr st' \<and>
          map batch_number (assignments_made st') = [1, 2, 3] \<and>
          mentor_id (last (assignments_made st')) = ''FAC003'' \<and>
          student_roll_numbers (last (assignments_made st')) = [61..75] \<and>
          unassigned st' = []"
  proof (intro exI conjI)
    show "handle_remainder Config [0, 1, 2] 2 15 ?s75 = Inr st3" by (rule e3)
    show "map batch_number (assignments_made st3) = [1, 2, 3]" by (simp only: a3 v3a)
    show "mentor_id (last (assignments_made st3)) = ''FAC003''" by (simp only: a3 v3b)
    show "student_roll_numbers (last (assignments_made st3)) = [61..75]" by (simp only: a3 v3c)
    show "unassigned st3 = []" by (simp only: u3 v3d)
  qed
  have h4: "remainder_threshold wrap_on < 15 \<and> length [0::nat, 1] \<le> current_mentor_index ?w75"
    by code_simp
  have v4a: "map batch_number (assignments_made ?u75) = [1, 2]"
    by code_simp
  have v4b: "map roll_no (unassigned ?u75) = [61..75]"
    by code_simp
  have c4: "\<exists>st'. handle_remainder wrap_on [0, 1] 2 15 ?w75 = Inr st' \<and>
          map batch_number (assignments_made st') = [1, 2] \<and>
          map roll_no (unassigned st') = [61..75]"
  proof (intro exI conjI)
    show "handle_remainder wrap_on [0, 1] 2 15 ?w75 = Inr ?u75"
      by (rule remainder_step_cases [where r = 15 and cfg = wrap_on and st = ?w75
            and av = "[0, 1]" and mi = 0 and k = 2, OF p15,
            THEN conjunct2, THEN conjunct2, THEN conjunct2, THEN mp, OF h4])
    show "map batch_number (assignments_made ?u75) = [1, 2]" by (rule v4a)
    show "map roll_no (unassigned ?u75) = [61..75]" by (rule v4b)
  qed
  have f2: "case fst (assign_students_to_mentors overload_off (map new_student [1..34]) (two_mentors 30)) of
      Inl e \<Rightarrow> False
    | Inr summary \<Rightarrow>
        map student_roll_numbers (assignments summary) = [[1..30]] \<and>
        unassigned_students summary = [31, 32, 33, 34]"
    by code_simp
  have f3: "case fst (assign_students_to_mentors Config (map new_student [1..75]) (three_mentors 30)) of
      Inl e \<Rightarrow> False
    | Inr summary \<Rightarrow>
        map mentor_id (assignments summary) = [''FAC001'', ''FAC002'', ''FAC003''] \<and>
        map student_roll_numbers (assignments summary) = [[1..30], [31..60], [61..75]] \<and>
        map batch_number (assignments summary) = [1, 2, 3] \<and>
        unassigned_students summary = []"
    by code_simp
  have f4: "case fst (assign_students_to_mentors wrap_on (map new_student [1..75]) (two_mentors 40)) of
      Inl e \<Rightarrow> False
    | Inr summary \<Rightarrow>
        map student_roll_numbers (assignments summary) = [[1..30], [31..60]] \<and>
        unassigned_students summary = [61..75]"
    by code_simp
  have f5: "case fst (assign_students_to_mentors Config (map new_student [1..5]) (two_mentors 30)) of
      Inl e \<Rightarrow> False
    | Inr summary \<Rightarrow>
        assignments summary = [] \<and> unassigned_students summary = [1, 2, 3, 4, 5]"
    by code_simp
  show ?thesis
    by (intro conjI run c1 c2 c3 c4 f2 f3 f4 f5)
qed

text \<open>
  Claim C1 says that the fold is refused, and the whole remainder unassigned, whenever it would
  push the mentor past \<open>max_students\<close> with \<open>allow_mentor_overload\<close> disabled. The code compares
  \<open>max_students\<close> with the size of the last assignment plus the remainder
  (\<^verbatim>\<open>total_after_addition\<close>), which is the mentor's number of students only as long as the
  mentor has one assignment. With wrap-around on and overload off, 95 students and two mentors
  of capacity 60: validation passes; the loop gives the first mentor the batches 1 and 3, so
  that it holds 60 students and cannot accept 5 more; the remainder of 5 is folded into batch 3
  all the same, because 30 + 5 is within 60, and the mentor ends with 65 students. Where every
  mentor has at most one assignment the step does what the claim says, as in the example of
  the specification (64 students, two assignments of 30 and 34 students).
\<close>

theorem fold_exceeds_mentor_capacity:
  "\<not> allow_mentor_overload wrap_on_overload_off \<and>
   remainder_of wrap_on_overload_off (map new_student [1..95]) = 5 \<and>
   validate_data_consistency wrap_on_overload_off (map new_student [1..95]) (two_mentors 60)
     = Inr (True, []) \<and>
   map (\<lambda>m. int (length (assigned_students m)))
     (ments (after_batches wrap_on_overload_off (map new_student [1..95]) (two_mentors 60))) = [60, 30] \<and>
   \<not> can_accept_students
       (ments (after_batches wrap_on_overload_off (map new_student [1..95]) (two_mentors 60)) ! 0) 5 \<and>
   (case assign_students_to_mentors wrap_on_overload_off (map new_student [1..95]) (two_mentors 60) of
      (Inl e, ss', ms') \<Rightarrow> False
    | (Inr summary, ss', ms') \<Rightarrow>
        map mentor_id (assignments summary) = [''FAC001'', ''FAC002'', ''FAC001''] \<and>
        map student_roll_numbers (assignments summary) = [[1..30], [31..60], [61..95]] \<and>
        unassigned_students summary = [] \<and>
        map faculty_id ms' = [''FAC001'', ''FAC002''] \<and>
        map max_students ms' = [60, 60] \<and>
        map (\<lambda>m. int (length (assigned_students m))) ms' = [65, 30] \<and>
        map assigned_mentor_id (drop 90 ss') = replicate 5 (Some ''FAC001''))"
  by code_simp

end
